theory Spec2Isabelle
  imports Main
begin

section \<open>Values of the engine's documents\<close>

text \<open>
  The engine's replies are typed \<open>any\<close> in the source and are walked with JavaScript's
  property reads, truthiness tests and optional chaining. They are modelled as JSON values
  with \<open>undefined\<close> added (the value of a missing property). Numbers in documents are
  integers here; a string is the list of its code units; an object is the list of its own
  properties in enumeration order (a read finds the first entry of a key).
\<close>

datatype json =
    JUndefined
  | JNull
  | JBool bool
  | JNum int
  | JStr string
  | JArr "json list"
  | JObj "(string \<times> json) list"

text \<open>\<open>!x\<close> is \<open>\<not> truthy x\<close>.\<close>

fun truthy :: "json \<Rightarrow> bool" where
  "truthy JUndefined = False"
| "truthy JNull = False"
| "truthy (JBool b) = b"
| "truthy (JNum n) = (n \<noteq> 0)"
| "truthy (JStr s) = (s \<noteq> [])"
| "truthy (JArr xs) = True"
| "truthy (JObj kvs) = True"

fun nullish :: "json \<Rightarrow> bool" where
  "nullish JUndefined = True"
| "nullish JNull = True"
| "nullish v = False"

fun isArray :: "json \<Rightarrow> bool" where
  "isArray (JArr xs) = True"
| "isArray v = False"

fun elems :: "json \<Rightarrow> json list" where
  "elems (JArr xs) = xs"
| "elems v = []"

fun typeof :: "json \<Rightarrow> string" where
  "typeof JUndefined = ''undefined''"
| "typeof JNull = ''object''"
| "typeof (JBool b) = ''boolean''"
| "typeof (JNum n) = ''number''"
| "typeof (JStr s) = ''string''"
| "typeof (JArr xs) = ''object''"
| "typeof (JObj kvs) = ''object''"

text \<open>
  \<open>js_prop v p\<close> is \<open>v.p\<close> for a value that is neither \<open>null\<close> nor \<open>undefined\<close> and a
  property name \<open>p\<close> written in the source (\<open>output\<close>, \<open>content\<close>, \<open>annotations\<close>,
  \<open>title\<close>, \<open>url\<close>, \<open>snippet\<close>, \<open>text\<close>, \<open>id\<close>, \<open>status\<close>, \<open>length\<close>): an own
  property of an object, the length of an array or a string, \<open>undefined\<close> otherwise.
\<close>

fun js_prop :: "json \<Rightarrow> string \<Rightarrow> json" where
  "js_prop (JObj kvs) p = (case map_of kvs p of None \<Rightarrow> JUndefined | Some v \<Rightarrow> v)"
| "js_prop (JArr xs) p = (if p = ''length'' then JNum (int (length xs)) else JUndefined)"
| "js_prop (JStr s) p = (if p = ''length'' then JNum (int (length s)) else JUndefined)"
| "js_prop v p = JUndefined"

text \<open>
  Reading a property of \<open>null\<close> or \<open>undefined\<close> throws a TypeError; the handlers catch
  it and report its message. \<open>Inl\<close> carries the message of a thrown error.
\<close>

definition type_error :: "json \<Rightarrow> string \<Rightarrow> string" where
  "type_error v p = ''Cannot read properties of '' @
     (if v = JNull then ''null'' else ''undefined'') @ '' (reading '' @ [CHR 0x27] @ p @ [CHR 0x27] @ '')''"

definition get_prop :: "json \<Rightarrow> string \<Rightarrow> string + json" where
  "get_prop v p = (if nullish v then Inl (type_error v p) else Inr (js_prop v p))"

text \<open>\<open>v?.p\<close>: \<open>undefined\<close> on \<open>null\<close> and \<open>undefined\<close>, the property otherwise.\<close>

definition opt_prop :: "json \<Rightarrow> string \<Rightarrow> json" where
  "opt_prop v p = (if nullish v then JUndefined else js_prop v p)"

subsection \<open>Decimal numerals\<close>

definition digit_char :: "nat \<Rightarrow> char" where
  "digit_char d = (''0123456789'' ! d)"

fun dec_nat :: "nat \<Rightarrow> string" where
  "dec_nat n = (if n < 10 then [digit_char n] else dec_nat (n div 10) @ [digit_char (n mod 10)])"

declare dec_nat.simps [simp del]

definition dec_int :: "int \<Rightarrow> string" where
  "dec_int i = (if i < 0 then CHR ''-'' # dec_nat (nat (- i)) else dec_nat (nat i))"

subsection \<open>Indexed reads\<close>

text \<open>
  \<open>v[0]\<close> for a value that is neither \<open>null\<close> nor \<open>undefined\<close>: the first element of
  an array, the first code unit of a string (as a string), the property \<open>"0"\<close> of an
  object, \<open>undefined\<close> otherwise and out of range.
\<close>

fun index0 :: "json \<Rightarrow> json" where
  "index0 (JArr xs) = (case xs of [] \<Rightarrow> JUndefined | x # _ \<Rightarrow> x)"
| "index0 (JStr s) = (case s of [] \<Rightarrow> JUndefined | c # _ \<Rightarrow> JStr [c])"
| "index0 (JObj kvs) = (case map_of kvs ''0'' of None \<Rightarrow> JUndefined | Some v \<Rightarrow> v)"
| "index0 v = JUndefined"

text \<open>
  \<open>v[v.length - 1]\<close> for a value that is neither \<open>null\<close> nor \<open>undefined\<close>. On an
  array and on a string the length is a number and the read is the last element (the last
  code unit), \<open>undefined\<close> when there is none. A number or a boolean has no length and no
  property of its own. On an object the key is the string JavaScript makes of
  \<open>length - 1\<close>, whatever the property \<open>length\<close> holds: that conversion is the
  language's (on floating point numbers), not the repository's, and is the parameter
  \<open>pred_key\<close>.
\<close>

fun index_last :: "(json \<Rightarrow> string) \<Rightarrow> json \<Rightarrow> json" where
  "index_last pred_key (JArr xs) = (if xs = [] then JUndefined else last xs)"
| "index_last pred_key (JStr s) = (if s = [] then JUndefined else JStr [last s])"
| "index_last pred_key (JObj kvs) =
     (case map_of kvs (pred_key (js_prop (JObj kvs) ''length'')) of None \<Rightarrow> JUndefined | Some v \<Rightarrow> v)"
| "index_last pred_key v = JUndefined"

subsection \<open>String conversion\<close>

text \<open>
  \<open>String(v)\<close>. A number is printed in decimal, as JavaScript prints a whole number
  below \<open>10^21\<close> in magnitude (from there on it prints an exponent, which this model
  does not follow; the handlers render a number only when the content item itself is one).
  An array joins the conversions of its elements with commas, \<open>null\<close>
  and \<open>undefined\<close> elements giving the empty string; a plain object gives
  \<open>[object Object]\<close>, and throws when an own property hides \<open>toString\<close> (a document's
  property is never callable).
\<close>

fun join_comma :: "string list \<Rightarrow> string" where
  "join_comma [] = []"
| "join_comma [s] = s"
| "join_comma (s # t # ss) = s @ '','' @ join_comma (t # ss)"

fun sequence_err :: "(string + 'a) list \<Rightarrow> string + 'a list" where
  "sequence_err [] = Inr []"
| "sequence_err (Inl e # rs) = Inl e"
| "sequence_err (Inr x # rs) = (case sequence_err rs of Inl e \<Rightarrow> Inl e | Inr xs \<Rightarrow> Inr (x # xs))"

fun js_String :: "json \<Rightarrow> string + string" where
  "js_String JUndefined = Inr ''undefined''"
| "js_String JNull = Inr ''null''"
| "js_String (JBool b) = Inr (if b then ''true'' else ''false'')"
| "js_String (JNum n) = Inr (dec_int n)"
| "js_String (JStr s) = Inr s"
| "js_String (JArr xs) =
     (case sequence_err (map (\<lambda>x. if nullish x then Inr [] else js_String x) xs) of
        Inl e \<Rightarrow> Inl e
      | Inr ss \<Rightarrow> Inr (join_comma ss))"
| "js_String (JObj kvs) =
     (if ''toString'' \<in> fst ` set kvs then Inl ''Cannot convert object to primitive value''
      else Inr ''[object Object]'')"

text \<open>\<open>Object.keys(v)\<close> for a truthy value, as the array of key strings.\<close>

fun object_keys :: "json \<Rightarrow> json" where
  "object_keys (JObj kvs) = JArr (map (\<lambda>k. JStr k) (remdups (map fst kvs)))"
| "object_keys (JArr xs) = JArr (map (\<lambda>i. JStr (dec_nat i)) [0 ..< length xs])"
| "object_keys (JStr s) = JArr (map (\<lambda>i. JStr (dec_nat i)) [0 ..< length s])"
| "object_keys v = JArr []"

section \<open>The job registry\<close>

datatype status = Pending | Completed | Failed

fun status_str :: "status \<Rightarrow> string" where
  "status_str Pending = ''pending''"
| "status_str Completed = ''completed''"
| "status_str Failed = ''failed''"

datatype model = O3_deep_research | O4_mini_deep_research

text \<open>
  \<open>ResearchRequest\<close>: the interface of \<open>src/server.ts\<close>, with the field
  \<open>openaiResponseId\<close> that the objects of \<open>dist/server.js\<close> carry instead of the
  creation reply. An absent optional field is \<open>JUndefined\<close> (\<open>None\<close> for the error
  text). \<open>createdAt\<close> is the time value of the date, in milliseconds.
\<close>

record ResearchRequest =
  rid :: string
  query :: string
  systemMessage :: "string option"
  model :: model
  status :: status
  openaiResponseId :: json
  response :: json
  error :: "string option"
  createdAt :: int

text \<open>\<open>researchRequests\<close>, the global \<open>Map\<close> from request id to request object.\<close>

type_synonym registry = "string \<rightharpoonup> ResearchRequest"

section \<open>What the handlers answer\<close>

record Citation =
  cid :: nat
  title :: json
  url :: json
  snippet :: json

text \<open>
  The JSON text a handler returns, one constructor per shape:
  \<^item> \<open>Created request_id\<close>: \<open>{request_id, status: "pending", message}\<close>;
  \<^item> \<open>ErrorReply error status debug\<close>: \<open>{error, status}\<close>, with the \<open>debug\<close> object
    two answers of \<open>dist/server.js\<close> add;
  \<^item> \<open>StatusReply request_id status query model created_at elapsed_minutes\<close>;
  \<^item> \<open>ResultsReply request_id query model report citations citation_count\<close>:
    \<open>{request_id, status: "completed", query, model, results: {report, citations,
    citation_count}}\<close>. \<open>JSON.stringify\<close> leaves out a property whose value is
    \<open>undefined\<close>, so a citation's \<open>url = JUndefined\<close> is an absent \<open>url\<close>.
\<close>

datatype reply =
    Created string
  | ErrorReply string string "json option"
  | StatusReply string status string model int int
  | ResultsReply string string model json "Citation list" nat

fun has_results :: "reply \<Rightarrow> bool" where
  "has_results (ResultsReply i q m r cs n) = True"
| "has_results other = False"

fun reply_error :: "reply \<Rightarrow> string option" where
  "reply_error (ErrorReply e s d) = Some e"
| "reply_error other = None"

fun reply_status :: "reply \<Rightarrow> string" where
  "reply_status (Created i) = ''pending''"
| "reply_status (ErrorReply e s d) = s"
| "reply_status (StatusReply i s q m c e) = status_str s"
| "reply_status (ResultsReply i q m r cs n) = ''completed''"

section \<open>The engine client\<close>

text \<open>
  \<open>getOpenAIClient\<close> throws when \<open>OPENAI_API_KEY\<close> is unset or empty. The client it
  builds is not modelled further: its two calls are the functions \<open>start\<close> and
  \<open>retrieve\<close> of the environments below, which either throw (\<open>Inl\<close> of the message
  the handler reports) or return a response object (its properties).
\<close>

definition getOpenAIClient :: "string option \<Rightarrow> string + unit" where
  "getOpenAIClient apiKey =
     (if apiKey = None \<or> apiKey = Some [] then Inl ''OPENAI_API_KEY environment variable is required''
      else Inr ())"

record start_request =
  sr_model :: model
  sr_input :: "(string \<times> string) list"
  sr_tools :: "string list"

text \<open>
  What a call of the create handler reads from outside: the API key, \<open>Date.now()\<close>,
  the characters \<open>Math.random().toString(36).substr(2, 9)\<close> keeps, the engine's
  \<open>responses.create\<close>, and the time of \<open>new Date()\<close> when the request is stored.
\<close>

record create_env =
  c_apiKey :: "string option"
  c_now :: int
  c_random :: string
  c_start :: "start_request \<Rightarrow> string + (string \<times> json) list"
  c_created :: int

record create_inputs =
  i_query :: string
  i_system_message :: "string option"
  i_model :: model
  i_include_code_interpreter :: bool

text \<open>What a call of the other two handlers of \<open>dist/server.js\<close> reads from outside.\<close>

record engine_env =
  e_apiKey :: "string option"
  e_now :: int
  e_retrieve :: "json \<Rightarrow> string + (string \<times> json) list"

section \<open>Creating a request (both files)\<close>

definition requestId :: "int \<Rightarrow> string \<Rightarrow> string" where
  "requestId now rnd = ''req_'' @ dec_int now @ ''_'' @ rnd"

definition inputMessages :: "create_inputs \<Rightarrow> (string \<times> string) list" where
  "inputMessages inp =
     (case i_system_message inp of
        None \<Rightarrow> []
      | Some s \<Rightarrow> if s = [] then [] else [(''developer'', s)])
     @ [(''user'', i_query inp)]"

definition tools :: "create_inputs \<Rightarrow> string list" where
  "tools inp = ''web_search_preview'' #
     (if i_include_code_interpreter inp then [''code_interpreter''] else [])"

definition engine_request :: "create_inputs \<Rightarrow> start_request" where
  "engine_request inp =
     \<lparr>sr_model = i_model inp, sr_input = inputMessages inp, sr_tools = tools inp\<rparr>"

definition create_failed :: "string \<Rightarrow> reply" where
  "create_failed errorMessage =
     ErrorReply (''Failed to create research request: '' @ errorMessage) ''failed'' None"

text \<open>\<open>src/server.ts\<close>: the request keeps the engine's creation reply as \<open>response\<close>.\<close>

definition create_ts :: "create_env \<Rightarrow> create_inputs \<Rightarrow> registry \<Rightarrow> reply \<times> registry" where
  "create_ts env inp reg =
     (case getOpenAIClient (c_apiKey env) of
        Inl e \<Rightarrow> (create_failed e, reg)
      | Inr client \<Rightarrow>
          let i = requestId (c_now env) (c_random env) in
          (case c_start env (engine_request inp) of
             Inl e \<Rightarrow> (create_failed e, reg)
           | Inr resp \<Rightarrow>
               (Created i,
                reg(i \<mapsto> \<lparr>rid = i, query = i_query inp, systemMessage = i_system_message inp,
                           model = i_model inp, status = Pending, openaiResponseId = JUndefined,
                           response = JObj resp, error = None, createdAt = c_created env\<rparr>))))"

text \<open>\<open>dist/server.js\<close>: the request keeps the reply's \<open>id\<close> as \<open>openaiResponseId\<close>.\<close>

definition create_dist :: "create_env \<Rightarrow> create_inputs \<Rightarrow> registry \<Rightarrow> reply \<times> registry" where
  "create_dist env inp reg =
     (case getOpenAIClient (c_apiKey env) of
        Inl e \<Rightarrow> (create_failed e, reg)
      | Inr client \<Rightarrow>
          let i = requestId (c_now env) (c_random env) in
          (case c_start env (engine_request inp) of
             Inl e \<Rightarrow> (create_failed e, reg)
           | Inr resp \<Rightarrow>
               (Created i,
                reg(i \<mapsto> \<lparr>rid = i, query = i_query inp, systemMessage = i_system_message inp,
                           model = i_model inp, status = Pending,
                           openaiResponseId = js_prop (JObj resp) ''id'',
                           response = JUndefined, error = None, createdAt = c_created env\<rparr>))))"

section \<open>Checking the status\<close>

definition not_found :: "string \<Rightarrow> reply" where
  "not_found request_id = ErrorReply (''Request ID '' @ request_id @ '' not found'') ''not_found'' None"

text \<open>
  \<open>Math.round((now - createdAt) / 1000 / 60)\<close> on a difference of whole milliseconds:
  rounding to the nearest minute, a half upwards.
\<close>

definition elapsed_minutes :: "int \<Rightarrow> int" where
  "elapsed_minutes ms = (2 * ms + 60000) div 120000"

definition status_reply :: "ResearchRequest \<Rightarrow> int \<Rightarrow> reply" where
  "status_reply request now =
     StatusReply (rid request) (status request) (query request) (model request)
       (createdAt request) (elapsed_minutes (now - createdAt request))"

text \<open>
  \<open>src/server.ts\<close>: a pending request becomes completed once \<open>elapsedMinutes > 5\<close>, that
  is once more than 300000 ms have passed since \<open>createdAt\<close>. No engine call is made.
\<close>

definition check_status_ts :: "int \<Rightarrow> string \<Rightarrow> registry \<Rightarrow> reply \<times> registry" where
  "check_status_ts now request_id reg =
     (case reg request_id of
        None \<Rightarrow> (not_found request_id, reg)
      | Some request \<Rightarrow>
          let request' =
                (if now - createdAt request > 300000 \<and> status request = Pending
                 then request\<lparr>status := Completed\<rparr> else request)
          in (status_reply request' now, reg(request_id \<mapsto> request')))"

text \<open>
  \<open>dist/server.js\<close>: a pending request with a truthy \<open>openaiResponseId\<close> is looked up at
  the engine. An error thrown in the inner \<open>try\<close> (no API key, a failed retrieval) is
  logged and the request is left as it is. The third component lists the references
  \<open>responses.retrieve\<close> was called with.
\<close>

definition reconcile :: "ResearchRequest \<Rightarrow> (string \<times> json) list \<Rightarrow> ResearchRequest" where
  "reconcile request resp =
     (if js_prop (JObj resp) ''status'' = JStr ''completed''
      then request\<lparr>status := Completed, response := JObj resp\<rparr>
      else if js_prop (JObj resp) ''status'' = JStr ''failed''
      then request\<lparr>status := Failed, error := Some ''Research request failed''\<rparr>
      else request)"

definition check_status_dist ::
    "engine_env \<Rightarrow> string \<Rightarrow> registry \<Rightarrow> reply \<times> registry \<times> json list" where
  "check_status_dist env request_id reg =
     (case reg request_id of
        None \<Rightarrow> (not_found request_id, reg, [])
      | Some request \<Rightarrow>
          let (request', calls) =
                (if truthy (openaiResponseId request) \<and> status request = Pending
                 then (case getOpenAIClient (e_apiKey env) of
                         Inl e \<Rightarrow> (request, [])
                       | Inr client \<Rightarrow>
                           (case e_retrieve env (openaiResponseId request) of
                              Inl e \<Rightarrow> (request, [openaiResponseId request])
                            | Inr resp \<Rightarrow> (reconcile request resp, [openaiResponseId request])))
                 else (request, []))
          in (status_reply request' (e_now env), reg(request_id \<mapsto> request'), calls))"

section \<open>Getting the results\<close>

definition not_completed :: "string \<Rightarrow> ResearchRequest \<Rightarrow> reply" where
  "not_completed request_id request =
     ErrorReply (''Request '' @ request_id @ '' is not completed. Status: '' @ status_str (status request))
       (status_str (status request)) None"

definition get_results_failed :: "string \<Rightarrow> reply" where
  "get_results_failed errorMessage = ErrorReply (''Failed to get results: '' @ errorMessage) ''error'' None"

subsection \<open>Citations and report (the same lines in both files)\<close>

text \<open>
  The callback of \<open>annotations.forEach\<close>: the citation pushed for the annotation at
  \<open>index\<close>. It reads \<open>annotation.title\<close> first, which throws on \<open>null\<close>.
\<close>

definition make_citation :: "nat \<Rightarrow> json \<Rightarrow> string + Citation" where
  "make_citation index annotation =
     (case get_prop annotation ''title'' of
        Inl e \<Rightarrow> Inl e
      | Inr t \<Rightarrow>
          Inr \<lparr>cid = index + 1,
               title = (if truthy t then t else JStr ''Unknown''),
               url = js_prop annotation ''url'',
               snippet = js_prop annotation ''snippet''\<rparr>)"

fun forEach_citations :: "nat \<Rightarrow> json list \<Rightarrow> string + Citation list" where
  "forEach_citations index [] = Inr []"
| "forEach_citations index (annotation # rest) =
     (case make_citation index annotation of
        Inl e \<Rightarrow> Inl e
      | Inr c \<Rightarrow>
          (case forEach_citations (Suc index) rest of
             Inl e \<Rightarrow> Inl e
           | Inr cs \<Rightarrow> Inr (c # cs)))"

text \<open>
  \<open>if (mainContent.annotations) mainContent.annotations.forEach(...)\<close>, for a truthy
  \<open>mainContent\<close>: only an array has a \<open>forEach\<close> to call.
\<close>

definition extract_citations :: "json \<Rightarrow> string + Citation list" where
  "extract_citations mainContent =
     (let annotations = js_prop mainContent ''annotations'' in
      if truthy annotations
      then (if isArray annotations then forEach_citations 0 (elems annotations)
            else Inl ''mainContent.annotations.forEach is not a function'')
      else Inr [])"

text \<open>\<open>mainContent.text || String(mainContent)\<close>, for a truthy \<open>mainContent\<close>.\<close>

definition report_text :: "json \<Rightarrow> string + json" where
  "report_text mainContent =
     (let t = js_prop mainContent ''text'' in
      if truthy t then Inr t
      else (case js_String mainContent of Inl e \<Rightarrow> Inl e | Inr s \<Rightarrow> Inr (JStr s)))"

definition results_of :: "ResearchRequest \<Rightarrow> json \<Rightarrow> string + reply" where
  "results_of request mainContent =
     (case extract_citations mainContent of
        Inl e \<Rightarrow> Inl e
      | Inr citations \<Rightarrow>
          (case report_text mainContent of
             Inl e \<Rightarrow> Inl e
           | Inr reportText \<Rightarrow>
               Inr (ResultsReply (rid request) (query request) (model request)
                      reportText citations (length citations))))"

subsection \<open>\<open>src/server.ts\<close>\<close>

text \<open>
  \<open>response.output[response.output.length - 1]?.content?.[0]\<close>, for a truthy
  \<open>response.output\<close>.
\<close>

definition mainContent_ts :: "(json \<Rightarrow> string) \<Rightarrow> json \<Rightarrow> json" where
  "mainContent_ts pred_key output =
     (let lastMessage = index_last pred_key output in
      if nullish lastMessage then JUndefined
      else let content = js_prop lastMessage ''content'' in
           if nullish content then JUndefined else index0 content)"

definition extract_ts :: "(json \<Rightarrow> string) \<Rightarrow> ResearchRequest \<Rightarrow> string + reply" where
  "extract_ts pred_key request =
     (let output = opt_prop (response request) ''output'' in
      if \<not> truthy output then Inr (ErrorReply ''No results available'' ''error'' None)
      else let mainContent = mainContent_ts pred_key output in
           if \<not> truthy mainContent
           then Inr (ErrorReply ''Unable to extract results from response'' ''error'' None)
           else results_of request mainContent)"

text \<open>The handler writes nothing to the registry and calls no engine.\<close>

definition get_results_ts :: "(json \<Rightarrow> string) \<Rightarrow> string \<Rightarrow> registry \<Rightarrow> reply" where
  "get_results_ts pred_key request_id reg =
     (case reg request_id of
        None \<Rightarrow> not_found request_id
      | Some request \<Rightarrow>
          if status request \<noteq> Completed then not_completed request_id request
          else (case extract_ts pred_key request of
                  Inl e \<Rightarrow> get_results_failed e
                | Inr r \<Rightarrow> r))"

subsection \<open>\<open>dist/server.js\<close>\<close>

definition debug_output :: "json \<Rightarrow> json \<Rightarrow> json" where
  "debug_output resp output =
     JObj [(''hasResponse'', JBool (truthy resp)),
           (''hasOutput'', JBool (truthy output)),
           (''outputType'', JStr (typeof output)),
           (''outputLength'', if isArray output then JNum (int (length (elems output)))
                              else JStr ''not array'')]"

definition debug_lastMessage :: "json \<Rightarrow> json" where
  "debug_lastMessage lastMessage =
     JObj [(''lastMessageKeys'', if truthy lastMessage then object_keys lastMessage
                                 else JStr ''no last message''),
           (''hasContent'', JBool (truthy lastMessage \<and> truthy (js_prop lastMessage ''content'')))]"

text \<open>
  The handler from \<open>if (!response)\<close> on, for the document \<open>resp\<close> in hand (the cached
  one, or the one just retrieved).
\<close>

definition extract_dist :: "ResearchRequest \<Rightarrow> json \<Rightarrow> string + reply" where
  "extract_dist request resp =
     (if \<not> truthy resp then Inr (ErrorReply ''No results available'' ''error'' None)
      else
        let output = js_prop resp ''output'' in
        if \<not> truthy output \<or> \<not> isArray output \<or> length (elems output) = 0
        then Inr (ErrorReply ''No output available in response'' ''error''
                    (Some (debug_output resp output)))
        else
          let lastMessage = last (elems output) in
          if \<not> truthy lastMessage \<or> \<not> truthy (js_prop lastMessage ''content'')
             \<or> \<not> isArray (js_prop lastMessage ''content'')
          then Inr (ErrorReply ''Unable to extract content from last message'' ''error''
                      (Some (debug_lastMessage lastMessage)))
          else
            let mainContent = index0 (js_prop lastMessage ''content'') in
            if \<not> truthy mainContent
            then Inr (ErrorReply ''No content in last message'' ''error'' None)
            else results_of request mainContent)"

definition caught :: "string + reply \<Rightarrow> reply" where
  "caught r = (case r of Inl e \<Rightarrow> get_results_failed e | Inr x \<Rightarrow> x)"

text \<open>
  A completed request whose cached document is missing or has no truthy \<open>output\<close> is
  fetched again, when \<open>openaiResponseId\<close> is truthy; the document fetched replaces the
  cached one before it is read. The third component lists the references
  \<open>responses.retrieve\<close> was called with.
\<close>

definition get_results_dist ::
    "engine_env \<Rightarrow> string \<Rightarrow> registry \<Rightarrow> reply \<times> registry \<times> json list" where
  "get_results_dist env request_id reg =
     (case reg request_id of
        None \<Rightarrow> (not_found request_id, reg, [])
      | Some request \<Rightarrow>
          if status request \<noteq> Completed then (not_completed request_id request, reg, [])
          else if truthy (openaiResponseId request)
                  \<and> (\<not> truthy (response request) \<or> \<not> truthy (js_prop (response request) ''output''))
          then (case getOpenAIClient (e_apiKey env) of
                  Inl e \<Rightarrow> (ErrorReply (''Failed to retrieve results: '' @ e) ''error'' None, reg, [])
                | Inr client \<Rightarrow>
                    (case e_retrieve env (openaiResponseId request) of
                       Inl e \<Rightarrow>
                         (ErrorReply (''Failed to retrieve results: '' @ e) ''error'' None, reg,
                          [openaiResponseId request])
                     | Inr fullResponse \<Rightarrow>
                         (caught (extract_dist request (JObj fullResponse)),
                          reg(request_id \<mapsto> request\<lparr>response := JObj fullResponse\<rparr>),
                          [openaiResponseId request])))
          else (caught (extract_dist request (response request)), reg, []))"

section \<open>Reachable registries\<close>

text \<open>
  The registries a process of \<open>src/server.ts\<close> can hold: it starts empty and is written
  by the create and the check-status handlers, on any input and in any environment.
\<close>

inductive reachable_ts :: "registry \<Rightarrow> bool" where
  ts_init: "reachable_ts Map.empty"
| ts_create: "reachable_ts reg \<Longrightarrow> reachable_ts (snd (create_ts env inp reg))"
| ts_check: "reachable_ts reg \<Longrightarrow> reachable_ts (snd (check_status_ts now request_id reg))"

text \<open>The registries a process of \<open>dist/server.js\<close> can hold; all three handlers write.\<close>

inductive reachable_dist :: "registry \<Rightarrow> bool" where
  dist_init: "reachable_dist Map.empty"
| dist_create: "reachable_dist reg \<Longrightarrow> reachable_dist (snd (create_dist env inp reg))"
| dist_check: "reachable_dist reg \<Longrightarrow> reachable_dist (fst (snd (check_status_dist eenv request_id reg)))"
| dist_get: "reachable_dist reg \<Longrightarrow> reachable_dist (fst (snd (get_results_dist eenv request_id reg)))"

section \<open>The document shape of the specification\<close>

text \<open>
  Written from the specification's extraction steps 1 and 3, to compare the handlers with:
  the output list is present, a sequence and not empty, and its last message has a content
  list that is not empty.
\<close>

definition well_shaped :: "json \<Rightarrow> bool" where
  "well_shaped doc =
     (case js_prop doc ''output'' of
        JArr msgs \<Rightarrow>
          msgs \<noteq> [] \<and> (case js_prop (last msgs) ''content'' of JArr items \<Rightarrow> items \<noteq> [] | _ \<Rightarrow> False)
      | _ \<Rightarrow> False)"

section \<open>Runs that do not return an identifier again\<close>

text \<open>
  \<open>later_ts i reg reg'\<close>: the registry \<open>reg'\<close> comes from \<open>reg\<close> by calls of the
  handlers of \<open>src/server.ts\<close>, none of them a create call that returns the identifier
  \<open>i\<close>. \<open>later_dist\<close> is the same for \<open>dist/server.js\<close>.
\<close>

inductive later_ts :: "string \<Rightarrow> registry \<Rightarrow> registry \<Rightarrow> bool" where
  later_ts_refl: "later_ts i reg reg"
| later_ts_create:
    "later_ts i reg reg' \<Longrightarrow> fst (create_ts env inp reg') \<noteq> Created i \<Longrightarrow>
     later_ts i reg (snd (create_ts env inp reg'))"
| later_ts_check:
    "later_ts i reg reg' \<Longrightarrow> later_ts i reg (snd (check_status_ts now request_id reg'))"

inductive later_dist :: "string \<Rightarrow> registry \<Rightarrow> registry \<Rightarrow> bool" where
  later_dist_refl: "later_dist i reg reg"
| later_dist_create:
    "later_dist i reg reg' \<Longrightarrow> fst (create_dist env inp reg') \<noteq> Created i \<Longrightarrow>
     later_dist i reg (snd (create_dist env inp reg'))"
| later_dist_check:
    "later_dist i reg reg' \<Longrightarrow> later_dist i reg (fst (snd (check_status_dist eenv request_id reg')))"
| later_dist_get:
    "later_dist i reg reg' \<Longrightarrow> later_dist i reg (fst (snd (get_results_dist eenv request_id reg')))"

section \<open>Documents the handlers can read\<close>

text \<open>
  Written from the specification's extraction steps, to compare the handlers with. A
  document is readable when its output list is present, a sequence and not empty, its last
  message has a content list whose first item is truthy, the item's annotations are absent
  or a list of entries that are neither \<open>null\<close> nor \<open>undefined\<close>, and the item has a
  text or can be rendered as a string.
\<close>

definition annotations_ok :: "json \<Rightarrow> bool" where
  "annotations_ok block =
     (if truthy (js_prop block ''annotations'')
      then isArray (js_prop block ''annotations'')
           \<and> list_all (\<lambda>a. \<not> nullish a) (elems (js_prop block ''annotations''))
      else True)"

definition report_ok :: "json \<Rightarrow> bool" where
  "report_ok block =
     (if truthy (js_prop block ''text'') then True
      else (case js_String block of Inl e \<Rightarrow> False | Inr s \<Rightarrow> True))"

definition readable :: "json \<Rightarrow> bool" where
  "readable doc =
     (case js_prop doc ''output'' of
        JArr msgs \<Rightarrow>
          msgs \<noteq> [] \<and>
          (case js_prop (last msgs) ''content'' of
             JArr items \<Rightarrow>
               (case items of
                  [] \<Rightarrow> False
                | block # rest \<Rightarrow> truthy block \<and> annotations_ok block \<and> report_ok block)
           | _ \<Rightarrow> False)
      | _ \<Rightarrow> False)"

text \<open>
  The document the get-results handler of \<open>dist/server.js\<close> reads for a completed
  request: the cached one, or the one it has just retrieved (none when the retrieval
  fails).
\<close>

definition document_read :: "engine_env \<Rightarrow> ResearchRequest \<Rightarrow> json" where
  "document_read env r =
     (if truthy (openaiResponseId r)
         \<and> (\<not> truthy (response r) \<or> \<not> truthy (js_prop (response r) ''output''))
      then (case getOpenAIClient (e_apiKey env) of
              Inl e \<Rightarrow> JUndefined
            | Inr client \<Rightarrow>
                (case e_retrieve env (openaiResponseId r) of
                   Inl e \<Rightarrow> JUndefined
                 | Inr fullResponse \<Rightarrow> JObj fullResponse))
      else response r)"

section \<open>Sample runs\<close>

text \<open>The scenario of the specification: \<open>create(query = "ping")\<close> on the fast model.\<close>

definition start_queued :: "start_request \<Rightarrow> string + (string \<times> json) list" where
  "start_queued req = Inr [(''id'', JStr ''resp_1''), (''status'', JStr ''queued'')]"

definition env_a :: create_env where
  "env_a = \<lparr>c_apiKey = Some ''sk'', c_now = 1, c_random = ''a'', c_start = start_queued, c_created = 0\<rparr>"

definition inp_ping :: create_inputs where
  "inp_ping = \<lparr>i_query = ''ping'', i_system_message = None, i_model = O4_mini_deep_research,
               i_include_code_interpreter = False\<rparr>"

definition job_a :: ResearchRequest where
  "job_a = \<lparr>rid = ''req_1_a'', query = ''ping'', systemMessage = None, model = O4_mini_deep_research,
            status = Pending, openaiResponseId = JUndefined,
            response = JObj [(''id'', JStr ''resp_1''), (''status'', JStr ''queued'')],
            error = None, createdAt = 0\<rparr>"

definition reg_ts_a :: registry where
  "reg_ts_a = snd (create_ts env_a inp_ping Map.empty)"

definition start_refused :: "start_request \<Rightarrow> string + (string \<times> json) list" where
  "start_refused req = Inl ''401 Incorrect API key provided''"

definition env_refused :: create_env where
  "env_refused = \<lparr>c_apiKey = Some ''sk'', c_now = 2, c_random = ''b'', c_start = start_refused, c_created = 2\<rparr>"

text \<open>The same scenario on \<open>dist/server.js\<close>, and the engine's answers to a retrieval.\<close>

definition job_d :: ResearchRequest where
  "job_d = \<lparr>rid = ''req_1_a'', query = ''ping'', systemMessage = None, model = O4_mini_deep_research,
            status = Pending, openaiResponseId = JStr ''resp_1'', response = JUndefined,
            error = None, createdAt = 0\<rparr>"

definition reg_dist_a :: registry where
  "reg_dist_a = snd (create_dist env_a inp_ping Map.empty)"

definition doc_pong :: "(string \<times> json) list" where
  "doc_pong =
     [(''id'', JStr ''resp_1''), (''status'', JStr ''completed''),
      (''output'',
       JArr [JObj [(''content'',
               JArr [JObj [(''text'', JStr ''pong''),
                           (''annotations'',
                            JArr [JObj [(''title'', JStr ''Src''), (''url'', JStr ''http://x'')]])]])]])]"

definition retrieve_pong :: "json \<Rightarrow> string + (string \<times> json) list" where
  "retrieve_pong ref = Inr doc_pong"

definition eenv_pong :: engine_env where
  "eenv_pong = \<lparr>e_apiKey = Some ''sk'', e_now = 60000, e_retrieve = retrieve_pong\<rparr>"

definition retrieve_down :: "json \<Rightarrow> string + (string \<times> json) list" where
  "retrieve_down ref = Inl ''Connection error.''"

definition eenv_down :: engine_env where
  "eenv_down = \<lparr>e_apiKey = Some ''sk'', e_now = 120000, e_retrieve = retrieve_down\<rparr>"

definition reg_dist_done :: registry where
  "reg_dist_done = fst (snd (check_status_dist eenv_pong ''req_1_a'' reg_dist_a))"

definition inp_other :: create_inputs where
  "inp_other = \<lparr>i_query = ''another question'', i_system_message = Some ''be brief'',
                i_model = O3_deep_research, i_include_code_interpreter = True\<rparr>"

text \<open>
  A value for \<open>pred_key\<close>: the key of \<open>length - 1\<close> where \<open>length\<close> is a whole number,
  a boolean, \<open>null\<close> or missing.
\<close>

fun pred_key_sample :: "json \<Rightarrow> string" where
  "pred_key_sample (JNum n) = dec_int (n - 1)"
| "pred_key_sample (JBool b) = (if b then ''0'' else ''-1'')"
| "pred_key_sample JNull = ''-1''"
| "pred_key_sample v = ''NaN''"

text \<open>
  A create call answered, as the engine answers a background request, with a queued
  response whose output list is still empty; then a status check five minutes later.
\<close>

definition start_background :: "start_request \<Rightarrow> string + (string \<times> json) list" where
  "start_background req =
     Inr [(''id'', JStr ''resp_2''), (''status'', JStr ''queued''), (''output'', JArr [])]"

definition env_b :: create_env where
  "env_b = \<lparr>c_apiKey = Some ''sk'', c_now = 2, c_random = ''b'', c_start = start_background, c_created = 2\<rparr>"

definition job_b :: ResearchRequest where
  "job_b = \<lparr>rid = ''req_2_b'', query = ''ping'', systemMessage = None, model = O4_mini_deep_research,
            status = Completed, openaiResponseId = JUndefined,
            response = JObj [(''id'', JStr ''resp_2''), (''status'', JStr ''queued''), (''output'', JArr [])],
            error = None, createdAt = 2\<rparr>"

definition reg_ts_b :: registry where
  "reg_ts_b = snd (check_status_ts 300003 ''req_2_b'' (snd (create_ts env_b inp_ping Map.empty)))"

text \<open>
  A completed request whose document ends, after a reasoning item, with a message of
  three annotations: two with title and url, one with a snippet only.
\<close>

definition doc_three :: "(string \<times> json) list" where
  "doc_three =
     [(''id'', JStr ''resp_3''), (''status'', JStr ''completed''),
      (''output'',
       JArr [JObj [(''type'', JStr ''reasoning''), (''summary'', JArr [])],
             JObj [(''type'', JStr ''message''),
                   (''content'',
                    JArr [JObj [(''type'', JStr ''output_text''), (''text'', JStr ''report''),
                                (''annotations'',
                                 JArr [JObj [(''title'', JStr ''A''), (''url'', JStr ''http://a'')],
                                       JObj [(''title'', JStr ''B''), (''url'', JStr ''http://b'')],
                                       JObj [(''snippet'', JStr ''quoted'')]])]])]])]"

definition job_c :: ResearchRequest where
  "job_c = \<lparr>rid = ''req_3_c'', query = ''three'', systemMessage = None, model = O3_deep_research,
            status = Completed, openaiResponseId = JStr ''resp_3'', response = JObj doc_three,
            error = None, createdAt = 3\<rparr>"

definition reg_c :: registry where
  "reg_c = [''req_3_c'' \<mapsto> job_c]"

text \<open>
  A completed request of \<open>src/server.ts\<close> whose document's last message carries its
  content as a string, and one whose \<open>response\<close> field is absent.
\<close>

definition job_s :: ResearchRequest where
  "job_s = \<lparr>rid = ''req_4_d'', query = ''ping'', systemMessage = None, model = O3_deep_research,
            status = Completed, openaiResponseId = JUndefined,
            response = JObj [(''output'', JArr [JObj [(''role'', JStr ''assistant''),
                                                     (''content'', JStr ''hello'')]])],
            error = None, createdAt = 4\<rparr>"

definition reg_s :: registry where
  "reg_s = [''req_4_d'' \<mapsto> job_s]"

definition job_m :: ResearchRequest where
  "job_m = \<lparr>rid = ''req_5_e'', query = ''ping'', systemMessage = None, model = O3_deep_research,
            status = Completed, openaiResponseId = JStr ''resp_5'', response = JUndefined,
            error = None, createdAt = 5\<rparr>"

definition reg_m :: registry where
  "reg_m = [''req_5_e'' \<mapsto> job_m]"

text \<open>
  An engine that reports the sample request completed with a document that has no output
  list, and the registry after a status check against it.
\<close>

definition doc_bare :: "(string \<times> json) list" where
  "doc_bare = [(''id'', JStr ''resp_1''), (''status'', JStr ''completed'')]"

definition retrieve_bare :: "json \<Rightarrow> string + (string \<times> json) list" where
  "retrieve_bare ref = Inr doc_bare"

definition eenv_bare :: engine_env where
  "eenv_bare = \<lparr>e_apiKey = Some ''sk'', e_now = 60000, e_retrieve = retrieve_bare\<rparr>"

definition reg_dist_bare :: registry where
  "reg_dist_bare = fst (snd (check_status_dist eenv_bare ''req_1_a'' reg_dist_a))"

section \<open>Properties\<close>

subsection \<open>Evaluating the sample runs\<close>

lemma dec_int_1: "dec_int 1 = ''1''"
  by (simp add: dec_int_def dec_nat.simps digit_char_def)

lemma requestId_a: "requestId 1 ''a'' = ''req_1_a''"
  by (simp add: requestId_def dec_int_1)

lemma reg_ts_a_eq: "reg_ts_a = [''req_1_a'' \<mapsto> job_a]"
  by (simp add: reg_ts_a_def create_ts_def env_a_def inp_ping_def getOpenAIClient_def
      start_queued_def requestId_a job_a_def Let_def)

subsection \<open>What one call of a handler of \<open>src/server.ts\<close> does to an entry\<close>

lemma create_ts_entry:
  assumes "snd (create_ts env inp reg) i = Some r"
  shows "reg i = Some r \<or> (status r = Pending \<and> error r = None \<and> i = requestId (c_now env) (c_random env))"
  using assms
  by (auto simp: create_ts_def Let_def split: sum.splits if_splits)

lemma check_status_ts_entry:
  assumes "snd (check_status_ts now j reg) i = Some r'"
  shows "\<exists>r. reg i = Some r \<and> error r' = error r \<and>
           (r' = r \<or> (status r = Pending \<and> status r' = Completed \<and> 300000 < now - createdAt r \<and> j = i))"
  using assms
  by (auto simp: check_status_ts_def Let_def split: option.splits if_splits)

lemma ts_invariant:
  "reachable_ts reg \<Longrightarrow> reg i = Some r \<Longrightarrow> (status r = Pending \<or> status r = Completed) \<and> error r = None"
proof (induction arbitrary: i r rule: reachable_ts.induct)
  case ts_init
  then show ?case by simp
next
  case (ts_create reg env inp)
  from create_ts_entry[OF ts_create.prems] ts_create.IH show ?case by blast
next
  case (ts_check reg now request_id)
  from check_status_ts_entry[OF ts_check.prems] obtain r0 where
    "reg i = Some r0" "error r = error r0"
    "r = r0 \<or> (status r0 = Pending \<and> status r = Completed \<and> 300000 < now - createdAt r0 \<and> request_id = i)"
    by blast
  with ts_check.IH[of i r0] show ?case by auto
qed

text \<open>
  C10. In \<open>src/server.ts\<close> every request of every reachable registry is pending or
  completed and has no error text. The one status change a handler makes to a stored
  request is pending to completed, by check-status on that request's id once more than
  300000 ms (5 minutes) lie between \<open>createdAt\<close> and the clock; the create handler only
  stores new pending requests, and the get-results handler writes nothing (its model
  returns no registry).
\<close>

theorem ts_status_never_failed:
  assumes "reachable_ts reg" and "reg i = Some r"
  shows "(status r = Pending \<or> status r = Completed) \<and> error r = None \<and>
         (\<forall>now j r'. snd (check_status_ts now j reg) i = Some r' \<longrightarrow> status r' \<noteq> status r \<longrightarrow>
            status r = Pending \<and> status r' = Completed \<and> 300000 < now - createdAt r \<and> j = i) \<and>
         (\<forall>env inp r'. snd (create_ts env inp reg) i = Some r' \<longrightarrow> r' \<noteq> r \<longrightarrow>
            status r' = Pending \<and> error r' = None)"
proof -
  have inv: "(status r = Pending \<or> status r = Completed) \<and> error r = None"
    using ts_invariant[OF assms] .
  have chk: "\<forall>now j r'. snd (check_status_ts now j reg) i = Some r' \<longrightarrow> status r' \<noteq> status r \<longrightarrow>
            status r = Pending \<and> status r' = Completed \<and> 300000 < now - createdAt r \<and> j = i"
    using check_status_ts_entry assms(2) by fastforce
  have cre: "\<forall>env inp r'. snd (create_ts env inp reg) i = Some r' \<longrightarrow> r' \<noteq> r \<longrightarrow>
            status r' = Pending \<and> error r' = None"
    using create_ts_entry assms(2) by fastforce
  from inv chk cre show ?thesis by blast
qed

theorem ts_status_never_failed_witness:
  "reachable_ts reg_ts_a \<and> reg_ts_a ''req_1_a'' = Some job_a \<and> status job_a = Pending \<and> error job_a = None \<and>
   snd (check_status_ts 300001 ''req_1_a'' reg_ts_a) ''req_1_a'' = Some (job_a\<lparr>status := Completed\<rparr>) \<and>
   300000 < 300001 - createdAt job_a"
proof -
  have r: "reachable_ts reg_ts_a"
    unfolding reg_ts_a_def by (rule ts_create[OF ts_init])
  have l: "reg_ts_a ''req_1_a'' = Some job_a"
    by (simp add: reg_ts_a_eq)
  have c: "snd (check_status_ts 300001 ''req_1_a'' reg_ts_a) ''req_1_a'' = Some (job_a\<lparr>status := Completed\<rparr>)"
    by (simp add: reg_ts_a_eq check_status_ts_def Let_def job_a_def)
  from ts_status_never_failed[OF r l] c r l show ?thesis
    by (simp add: job_a_def)
qed

lemma reg_dist_a_eq: "reg_dist_a = [''req_1_a'' \<mapsto> job_d]"
  by (simp add: reg_dist_a_def create_dist_def env_a_def inp_ping_def getOpenAIClient_def
      start_queued_def requestId_a job_d_def Let_def)

lemma reg_dist_done_eq:
  "reg_dist_done = [''req_1_a'' \<mapsto> job_d\<lparr>status := Completed, response := JObj doc_pong\<rparr>]"
  by (simp add: reg_dist_done_def reg_dist_a_eq check_status_dist_def eenv_pong_def
      getOpenAIClient_def retrieve_pong_def reconcile_def job_d_def doc_pong_def Let_def)

subsection \<open>A failed create\<close>

text \<open>
  C8. When the create handler's engine call throws (or the client cannot be built, for
  want of an API key), both files answer \<open>{error: "Failed to create research request:
  <message>", status: "failed"}\<close> and leave the registry as it was: the request is
  stored only after the engine has answered.
\<close>

theorem create_failure_leaves_registry:
  assumes "getOpenAIClient (c_apiKey env) = Inl e \<or>
           (getOpenAIClient (c_apiKey env) = Inr () \<and> c_start env (engine_request inp) = Inl e)"
  shows "create_ts env inp reg = (ErrorReply (''Failed to create research request: '' @ e) ''failed'' None, reg) \<and>
         create_dist env inp reg = (ErrorReply (''Failed to create research request: '' @ e) ''failed'' None, reg)"
  using assms by (auto simp: create_ts_def create_dist_def create_failed_def Let_def)

theorem create_failure_leaves_registry_witness:
  "getOpenAIClient (c_apiKey env_refused) = Inr () \<and>
   c_start env_refused (engine_request inp_ping) = Inl ''401 Incorrect API key provided'' \<and>
   create_ts env_refused inp_ping reg_ts_a =
     (ErrorReply ''Failed to create research request: 401 Incorrect API key provided'' ''failed'' None, reg_ts_a) \<and>
   create_dist env_refused inp_ping reg_dist_a =
     (ErrorReply ''Failed to create research request: 401 Incorrect API key provided'' ''failed'' None, reg_dist_a)"
proof -
  have k: "getOpenAIClient (c_apiKey env_refused) = Inr ()"
    by (simp add: getOpenAIClient_def env_refused_def)
  have s: "c_start env_refused (engine_request inp_ping) = Inl ''401 Incorrect API key provided''"
    by (simp add: env_refused_def start_refused_def)
  from k s have h: "getOpenAIClient (c_apiKey env_refused) = Inl ''401 Incorrect API key provided'' \<or>
      (getOpenAIClient (c_apiKey env_refused) = Inr () \<and>
       c_start env_refused (engine_request inp_ping) = Inl ''401 Incorrect API key provided'')"
    by simp
  from create_failure_leaves_registry[OF h, of reg_ts_a]
       create_failure_leaves_registry[OF h, of reg_dist_a] k s
  show ?thesis by simp
qed

subsection \<open>What one call of a handler does to an entry\<close>

lemma falsy_prop: "\<not> truthy v \<Longrightarrow> \<not> truthy (js_prop v p)"
  by (cases v) auto

lemma create_dist_entry:
  assumes "snd (create_dist env inp reg) i = Some r"
  shows "reg i = Some r \<or>
         (status r = Pending \<and> error r = None \<and> response r = JUndefined \<and>
          i = requestId (c_now env) (c_random env))"
  using assms
  by (auto simp: create_dist_def Let_def split: sum.splits if_splits)

lemma check_status_dist_entry:
  assumes "fst (snd (check_status_dist env j reg)) i = Some r'"
  shows "\<exists>r. reg i = Some r \<and>
           (r' = r \<or> (j = i \<and> status r = Pending \<and> truthy (openaiResponseId r) \<and>
                       getOpenAIClient (e_apiKey env) = Inr () \<and>
                       (\<exists>resp. e_retrieve env (openaiResponseId r) = Inr resp \<and> r' = reconcile r resp)))"
  using assms
  by (auto simp: check_status_dist_def Let_def split: option.splits if_splits sum.splits)

lemma get_results_dist_entry:
  assumes "fst (snd (get_results_dist env j reg)) i = Some r'"
  shows "\<exists>r. reg i = Some r \<and>
           (r' = r \<or> (j = i \<and> status r = Completed \<and> truthy (openaiResponseId r) \<and>
                       \<not> truthy (js_prop (response r) ''output'') \<and>
                       getOpenAIClient (e_apiKey env) = Inr () \<and>
                       (\<exists>full. e_retrieve env (openaiResponseId r) = Inr full \<and>
                               r' = r\<lparr>response := JObj full\<rparr>)))"
  using assms
  by (auto simp: get_results_dist_def Let_def falsy_prop split: option.splits if_splits sum.splits)

lemma check_status_ts_terminal:
  assumes "reg i = Some r" and "status r \<noteq> Pending"
  shows "snd (check_status_ts now j reg) i = Some r" and "check_status_ts now i reg = (status_reply r now, reg)"
  using assms by (auto simp: check_status_ts_def Let_def map_upd_triv split: option.splits)

lemma check_status_dist_terminal:
  assumes "reg i = Some r" and "status r \<noteq> Pending"
  shows "fst (snd (check_status_dist env j reg)) i = Some r"
    and "check_status_dist env i reg = (status_reply r (e_now env), reg, [])"
  using assms
  by (auto simp: check_status_dist_def Let_def map_upd_triv split: option.splits sum.splits)

lemma get_results_dist_status:
  assumes "reg i = Some r"
  shows "\<exists>r'. fst (snd (get_results_dist env j reg)) i = Some r' \<and> status r' = status r"
  using assms
  by (auto simp: get_results_dist_def Let_def split: option.splits sum.splits)

lemma create_other_ids:
  assumes "i \<noteq> requestId (c_now env) (c_random env)"
  shows "snd (create_ts env inp reg) i = reg i" and "snd (create_dist env inp reg) i = reg i"
  using assms by (auto simp: create_ts_def create_dist_def Let_def split: sum.splits)

subsection \<open>Request identifiers\<close>

lemma digit_char_cases:
  assumes "d < 10"
  shows "d = 0 \<or> d = 1 \<or> d = 2 \<or> d = 3 \<or> d = 4 \<or> d = 5 \<or> d = 6 \<or> d = 7 \<or> d = 8 \<or> d = (9::nat)"
  using assms by arith

lemma digit_char_in: "d < 10 \<Longrightarrow> digit_char d \<in> set ''0123456789''"
  using digit_char_cases[of d] by (auto simp: digit_char_def)

lemma digit_char_inj:
  assumes "d < 10" and "d' < 10" and "digit_char d = digit_char d'"
  shows "d = d'"
  using digit_char_cases[OF assms(1)] digit_char_cases[OF assms(2)] assms(3)
  by (auto simp: digit_char_def)

lemma dec_nat_nonempty: "dec_nat n \<noteq> []"
  by (subst dec_nat.simps) simp

lemma dec_nat_digits: "set (dec_nat n) \<subseteq> set ''0123456789''"
proof (induction n rule: dec_nat.induct)
  case (1 n)
  show ?case
  proof (cases "n < 10")
    case True
    then show ?thesis using digit_char_in[of n] by (subst dec_nat.simps) simp
  next
    case False
    have "n mod 10 < 10" by simp
    from digit_char_in[OF this] 1[OF False] False show ?thesis
      by (subst dec_nat.simps) simp
  qed
qed

lemma dec_nat_inj: "dec_nat n = dec_nat m \<Longrightarrow> n = m"
proof (induction n arbitrary: m rule: dec_nat.induct)
  case (1 n)
  show ?case
  proof (cases "n < 10")
    case n: True
    show ?thesis
    proof (cases "m < 10")
      case True
      with n 1(2) show ?thesis
        by (simp add: dec_nat.simps[of n] dec_nat.simps[of m] digit_char_inj)
    next
      case False
      with n 1(2) dec_nat_nonempty[of "m div 10"] show ?thesis
        by (simp add: dec_nat.simps[of n] dec_nat.simps[of m])
    qed
  next
    case n: False
    show ?thesis
    proof (cases "m < 10")
      case True
      with n 1(2) dec_nat_nonempty[of "n div 10"] show ?thesis
        by (simp add: dec_nat.simps[of n] dec_nat.simps[of m])
    next
      case False
      with n 1(2) have e: "dec_nat (n div 10) = dec_nat (m div 10)"
        and d: "digit_char (n mod 10) = digit_char (m mod 10)"
        by (simp_all add: dec_nat.simps[of n] dec_nat.simps[of m])
      from 1(1)[OF n e] have q: "n div 10 = m div 10" .
      from d have r: "n mod 10 = m mod 10" by (intro digit_char_inj) simp_all
      from q r show ?thesis by (metis div_mult_mod_eq)
    qed
  qed
qed

lemma dec_int_no_underscore: "CHR ''_'' \<notin> set (dec_int i)"
  using dec_nat_digits[of "nat i"] dec_nat_digits[of "nat (- i)"]
  by (auto simp: dec_int_def)

lemma dec_nat_no_minus: "hd (dec_nat n) \<noteq> CHR ''-''"
proof -
  have "hd (dec_nat n) \<in> set (dec_nat n)" using dec_nat_nonempty by simp
  with dec_nat_digits[of n] show ?thesis by auto
qed

lemma dec_int_inj: "dec_int i = dec_int j \<Longrightarrow> i = j"
proof -
  assume e: "dec_int i = dec_int j"
  show ?thesis
  proof (cases "i < 0")
    case i: True
    show ?thesis
    proof (cases "j < 0")
      case True
      with i e have "dec_nat (nat (- i)) = dec_nat (nat (- j))" by (simp add: dec_int_def)
      from dec_nat_inj[OF this] i True show ?thesis by simp
    next
      case False
      with i e have "CHR ''-'' # dec_nat (nat (- i)) = dec_nat (nat j)" by (simp add: dec_int_def)
      then have "hd (dec_nat (nat j)) = CHR ''-''" by (metis list.sel(1))
      with dec_nat_no_minus show ?thesis by blast
    qed
  next
    case i: False
    show ?thesis
    proof (cases "j < 0")
      case True
      with i e have "dec_nat (nat i) = CHR ''-'' # dec_nat (nat (- j))" by (simp add: dec_int_def)
      then have "hd (dec_nat (nat i)) = CHR ''-''" by (metis list.sel(1))
      with dec_nat_no_minus show ?thesis by blast
    next
      case False
      with i e have "dec_nat (nat i) = dec_nat (nat j)" by (simp add: dec_int_def)
      from dec_nat_inj[OF this] i False show ?thesis by simp
    qed
  qed
qed

lemma split_at_first:
  assumes "xs @ c # ys = xs' @ c # ys'" and "c \<notin> set xs" and "c \<notin> set xs'"
  shows "xs = xs' \<and> ys = ys'"
  using assms
proof (induction xs arbitrary: xs')
  case Nil
  then show ?case by (cases xs') auto
next
  case (Cons a xs)
  then show ?case by (cases xs') auto
qed

lemma requestId_inj:
  "requestId now rnd = requestId now' rnd' \<longleftrightarrow> now = now' \<and> rnd = rnd'"
proof
  assume "requestId now rnd = requestId now' rnd'"
  then have "dec_int now @ CHR ''_'' # rnd = dec_int now' @ CHR ''_'' # rnd'"
    by (simp add: requestId_def)
  from split_at_first[OF this dec_int_no_underscore dec_int_no_underscore]
  show "now = now' \<and> rnd = rnd'" using dec_int_inj by blast
qed simp

lemma create_success:
  assumes "fst (create_ts env inp reg) = Created i \<or> fst (create_dist env inp reg) = Created i"
  shows "i = requestId (c_now env) (c_random env)"
    and "\<exists>r. snd (create_ts env inp reg) = reg(i \<mapsto> r) \<and> rid r = i \<and> status r = Pending"
    and "\<exists>r. snd (create_dist env inp reg) = reg(i \<mapsto> r) \<and> rid r = i \<and> status r = Pending"
  using assms
  by (auto simp: create_ts_def create_dist_def create_failed_def Let_def split: sum.splits)

text \<open>
  C9, as the code has it. The identifier a create call returns is
  \<open>req_<clock>_<suffix>\<close>: never empty, and equal to another call's identifier exactly
  when both calls read the same clock value and the same random suffix. Nothing checks
  whether the identifier is already bound: a successful create overwrites the entry of its
  identifier (\<open>Map.set\<close>) with the new pending request and leaves every other entry.
\<close>

theorem create_sets_its_identifier:
  "requestId now rnd \<noteq> [] \<and>
   (requestId now rnd = requestId now' rnd' \<longleftrightarrow> now = now' \<and> rnd = rnd') \<and>
   (fst (create_ts env inp reg) = Created i \<or> fst (create_dist env inp reg) = Created i \<longrightarrow>
      i = requestId (c_now env) (c_random env) \<and>
      (\<exists>r. snd (create_ts env inp reg) = reg(i \<mapsto> r) \<and> rid r = i \<and> status r = Pending) \<and>
      (\<exists>r. snd (create_dist env inp reg) = reg(i \<mapsto> r) \<and> rid r = i \<and> status r = Pending))"
proof -
  have a: "requestId now rnd \<noteq> []" by (simp add: requestId_def)
  have b: "requestId now rnd = requestId now' rnd' \<longleftrightarrow> now = now' \<and> rnd = rnd'"
    by (rule requestId_inj)
  have c: "fst (create_ts env inp reg) = Created i \<or> fst (create_dist env inp reg) = Created i \<longrightarrow>
      i = requestId (c_now env) (c_random env) \<and>
      (\<exists>r. snd (create_ts env inp reg) = reg(i \<mapsto> r) \<and> rid r = i \<and> status r = Pending) \<and>
      (\<exists>r. snd (create_dist env inp reg) = reg(i \<mapsto> r) \<and> rid r = i \<and> status r = Pending)"
  proof
    assume h: "fst (create_ts env inp reg) = Created i \<or> fst (create_dist env inp reg) = Created i"
    from create_success(1)[OF h] create_success(2)[OF h] create_success(3)[OF h]
    show "i = requestId (c_now env) (c_random env) \<and>
      (\<exists>r. snd (create_ts env inp reg) = reg(i \<mapsto> r) \<and> rid r = i \<and> status r = Pending) \<and>
      (\<exists>r. snd (create_dist env inp reg) = reg(i \<mapsto> r) \<and> rid r = i \<and> status r = Pending)"
      by (intro conjI)
  qed
  from a b c show ?thesis by (intro conjI)
qed


theorem create_sets_its_identifier_witness:
  "fst (create_ts env_a inp_ping Map.empty) = Created ''req_1_a'' \<and>
   ''req_1_a'' = requestId (c_now env_a) (c_random env_a) \<and>
   (\<exists>r. snd (create_ts env_a inp_ping Map.empty) = [''req_1_a'' \<mapsto> r] \<and> rid r = ''req_1_a'' \<and>
        status r = Pending) \<and>
   requestId 1 ''a'' \<noteq> requestId 2 ''a''"
proof -
  have c: "fst (create_ts env_a inp_ping Map.empty) = Created ''req_1_a''"
    by (simp add: create_ts_def env_a_def inp_ping_def getOpenAIClient_def start_queued_def
        requestId_a Let_def)
  then have h: "fst (create_ts env_a inp_ping Map.empty) = Created ''req_1_a'' \<or>
                fst (create_dist env_a inp_ping Map.empty) = Created ''req_1_a''" by (rule disjI1)
  note t = create_sets_its_identifier[of 1 "''a''" 2 "''a''" env_a inp_ping Map.empty "''req_1_a''"]
  from t have n: "(requestId 1 ''a'' = requestId 2 ''a'') = (1 = (2::int) \<and> ''a'' = ''a'')"
    by (rule conjunct1[OF conjunct2])
  then have d: "requestId 1 ''a'' \<noteq> requestId 2 ''a''" by simp
  from t have "fst (create_ts env_a inp_ping Map.empty) = Created ''req_1_a'' \<or>
      fst (create_dist env_a inp_ping Map.empty) = Created ''req_1_a'' \<longrightarrow>
      ''req_1_a'' = requestId (c_now env_a) (c_random env_a) \<and>
      (\<exists>r. snd (create_ts env_a inp_ping Map.empty) = [''req_1_a'' \<mapsto> r] \<and> rid r = ''req_1_a'' \<and> status r = Pending) \<and>
      (\<exists>r. snd (create_dist env_a inp_ping Map.empty) = [''req_1_a'' \<mapsto> r] \<and> rid r = ''req_1_a'' \<and> status r = Pending)"
    by (rule conjunct2[OF conjunct2])
  from mp[OF this h] have e: "''req_1_a'' = requestId (c_now env_a) (c_random env_a)"
    and x: "\<exists>r. snd (create_ts env_a inp_ping Map.empty) = [''req_1_a'' \<mapsto> r] \<and> rid r = ''req_1_a'' \<and> status r = Pending"
    by (rule conjunct1, rule conjunct1[OF conjunct2])
  show ?thesis
    by (intro conjI c e x d)
qed

theorem identifier_reused_counterexample:
  "fst (create_ts env_a inp_ping Map.empty) = Created ''req_1_a'' \<and>
   fst (create_ts env_a inp_other reg_ts_a) = Created ''req_1_a'' \<and>
   reg_ts_a ''req_1_a'' = Some job_a \<and>
   snd (create_ts env_a inp_other reg_ts_a) ''req_1_a'' =
     Some (job_a\<lparr>query := ''another question'', systemMessage := Some ''be brief'',
                  model := O3_deep_research\<rparr>)"
  by (simp add: create_ts_def env_a_def inp_ping_def inp_other_def getOpenAIClient_def
      start_queued_def requestId_a reg_ts_a_eq job_a_def Let_def)

subsection \<open>When get-results answers with results\<close>

lemma requestId_b: "requestId 2 ''b'' = ''req_2_b''"
  by (simp add: requestId_def dec_int_def dec_nat.simps digit_char_def)

lemma reg_ts_b_eq: "reg_ts_b = [''req_2_b'' \<mapsto> job_b]"
  by (simp add: reg_ts_b_def create_ts_def check_status_ts_def env_b_def inp_ping_def
      getOpenAIClient_def start_background_def requestId_b job_b_def Let_def)

lemma caught_results: "has_results (caught x) \<Longrightarrow> \<exists>r. x = Inr r \<and> has_results r"
  by (cases x) (auto simp: caught_def get_results_failed_def)

lemma get_results_ts_results:
  assumes "has_results (get_results_ts pk i reg)"
  shows "\<exists>r. reg i = Some r \<and> status r = Completed"
  using assms
  by (auto simp: get_results_ts_def not_found_def not_completed_def split: option.splits if_splits)

lemma get_results_dist_results:
  assumes "has_results (fst (get_results_dist env i reg))"
  shows "\<exists>r. reg i = Some r \<and> status r = Completed"
  using assms
  by (auto simp: get_results_dist_def not_found_def not_completed_def split: option.splits if_splits)

lemma get_results_unknown:
  assumes "reg i = None"
  shows "get_results_ts pk i reg = ErrorReply (''Request ID '' @ i @ '' not found'') ''not_found'' None"
    and "get_results_dist env i reg = (ErrorReply (''Request ID '' @ i @ '' not found'') ''not_found'' None, reg, [])"
  using assms by (simp_all add: get_results_ts_def get_results_dist_def not_found_def)

lemma get_results_not_completed:
  assumes "reg i = Some r" and "status r \<noteq> Completed"
  shows "get_results_ts pk i reg =
           ErrorReply (''Request '' @ i @ '' is not completed. Status: '' @ status_str (status r))
             (status_str (status r)) None"
    and "get_results_dist env i reg =
           (ErrorReply (''Request '' @ i @ '' is not completed. Status: '' @ status_str (status r))
             (status_str (status r)) None, reg, [])"
  using assms by (simp_all add: get_results_ts_def get_results_dist_def not_completed_def)

subsection \<open>Extraction of citations\<close>

lemma make_citation_defined:
  "\<not> nullish a \<Longrightarrow>
   make_citation k a =
     Inr \<lparr>cid = k + 1,
          title = (if truthy (js_prop a ''title'') then js_prop a ''title'' else JStr ''Unknown''),
          url = js_prop a ''url'', snippet = js_prop a ''snippet''\<rparr>"
  by (simp add: make_citation_def get_prop_def)

lemma forEach_citations_defined:
  assumes "\<forall>a \<in> set anns. \<not> nullish a"
  shows "forEach_citations k anns =
     Inr (map (\<lambda>j. \<lparr>cid = k + j + 1,
                      title = (if truthy (js_prop (anns ! j) ''title'') then js_prop (anns ! j) ''title''
                               else JStr ''Unknown''),
                      url = js_prop (anns ! j) ''url'', snippet = js_prop (anns ! j) ''snippet''\<rparr>)
            [0 ..< length anns])"
  using assms
proof (induction anns arbitrary: k)
  case Nil
  show ?case by simp
next
  case (Cons a anns)
  from Cons.prems have a: "\<not> nullish a" and r: "\<forall>a \<in> set anns. \<not> nullish a" by simp_all
  show ?case
    by (simp only: forEach_citations.simps make_citation_defined[OF a] Cons.IH[OF r] sum.case
        length_Cons map_upt_Suc) simp
qed

lemma extract_citations_list:
  assumes "js_prop block ''annotations'' = JArr anns" and "\<forall>a \<in> set anns. \<not> nullish a"
  shows "extract_citations block =
     Inr (map (\<lambda>j. \<lparr>cid = j + 1,
                      title = (if truthy (js_prop (anns ! j) ''title'') then js_prop (anns ! j) ''title''
                               else JStr ''Unknown''),
                      url = js_prop (anns ! j) ''url'', snippet = js_prop (anns ! j) ''snippet''\<rparr>)
            [0 ..< length anns])"
  using forEach_citations_defined[OF assms(2), of 0] assms(1)
  by (simp add: extract_citations_def)

lemma extract_citations_none:
  assumes "\<not> truthy (js_prop block ''annotations'')"
  shows "extract_citations block = Inr []"
  using assms by (simp add: extract_citations_def)

lemma prop_array_object: "js_prop v p = JArr xs \<Longrightarrow> p \<noteq> ''length'' \<Longrightarrow> \<exists>kvs. v = JObj kvs"
  by (cases v) (auto split: if_splits)

lemma mainContent_ts_block:
  assumes "msgs \<noteq> []" and "js_prop (last msgs) ''content'' = JArr (block # rest)"
  shows "mainContent_ts pk (JArr msgs) = block"
proof -
  from prop_array_object[OF assms(2)] obtain kvs where "last msgs = JObj kvs" by auto
  with assms show ?thesis by (simp add: mainContent_ts_def Let_def)
qed

lemma extract_ts_block:
  assumes "js_prop (response r) ''output'' = JArr msgs" and "msgs \<noteq> []"
    and "js_prop (last msgs) ''content'' = JArr (block # rest)" and "truthy block"
  shows "extract_ts pk r = results_of r block"
proof -
  from prop_array_object[OF assms(1)] obtain kvs where "response r = JObj kvs" by auto
  with assms(1) have "opt_prop (response r) ''output'' = JArr msgs"
    by (simp add: opt_prop_def)
  with mainContent_ts_block[OF assms(2,3)] assms(4) show ?thesis
    by (simp add: extract_ts_def Let_def)
qed

lemma extract_dist_block:
  assumes "js_prop resp ''output'' = JArr msgs" and "msgs \<noteq> []"
    and "js_prop (last msgs) ''content'' = JArr (block # rest)" and "truthy block"
  shows "extract_dist r resp = results_of r block"
proof -
  from prop_array_object[OF assms(1)] obtain kvs where v: "resp = JObj kvs" by auto
  from prop_array_object[OF assms(3)] obtain kvs' where l: "last msgs = JObj kvs'" by auto
  from v l assms show ?thesis by (simp add: extract_dist_def Let_def)
qed

text \<open>
  C4. For a completed request whose document has a non-empty output list, the handlers of
  both files read the last element of that list as the message and the first item of its
  content list as the block, and answer with one citation per annotation of the block, in
  the annotations' order: \<open>id\<close> is the position counted from 1, \<open>title\<close> is the
  annotation's title, or \<open>"Unknown"\<close> when the title is missing (or otherwise falsy), and
  \<open>url\<close> and \<open>snippet\<close> are the annotation's own, \<open>undefined\<close> (left out of the JSON
  text) when the annotation has none. A block without annotations gives no citation. An
  annotation is an object here: an entry \<open>null\<close> in the list makes the callback throw.
\<close>

theorem citations_follow_annotations:
  assumes "reg i = Some r" and "status r = Completed"
    and "js_prop (response r) ''output'' = JArr msgs" and "msgs \<noteq> []"
    and "js_prop (last msgs) ''content'' = JArr (block # rest)" and "truthy block"
    and "(js_prop block ''annotations'' = JArr anns \<and> (\<forall>a \<in> set anns. \<not> nullish a)) \<or>
         (\<not> truthy (js_prop block ''annotations'') \<and> anns = [])"
    and "report_text block = Inr rep"
    and "cits = map (\<lambda>j. \<lparr>cid = j + 1,
                      title = (if truthy (js_prop (anns ! j) ''title'') then js_prop (anns ! j) ''title''
                               else JStr ''Unknown''),
                      url = js_prop (anns ! j) ''url'', snippet = js_prop (anns ! j) ''snippet''\<rparr>)
            [0 ..< length anns]"
  shows "get_results_ts pk i reg = ResultsReply (rid r) (query r) (model r) rep cits (length anns) \<and>
         get_results_dist env i reg =
           (ResultsReply (rid r) (query r) (model r) rep cits (length anns), reg, [])"
proof -
  have c: "extract_citations block = Inr cits"
    using assms(7)
  proof
    assume "js_prop block ''annotations'' = JArr anns \<and> (\<forall>a \<in> set anns. \<not> nullish a)"
    then show ?thesis using extract_citations_list[of block anns] assms(9) by simp
  next
    assume "\<not> truthy (js_prop block ''annotations'') \<and> anns = []"
    then show ?thesis using extract_citations_none[of block] assms(9) by simp
  qed
  have n: "length cits = length anns" using assms(9) by simp
  have res: "results_of r block = Inr (ResultsReply (rid r) (query r) (model r) rep cits (length anns))"
    using c assms(8) n by (simp add: results_of_def)
  have ts: "extract_ts pk r = Inr (ResultsReply (rid r) (query r) (model r) rep cits (length anns))"
    using extract_ts_block[OF assms(3,4,5,6)] res by simp
  have di: "extract_dist r (response r) = Inr (ResultsReply (rid r) (query r) (model r) rep cits (length anns))"
    using extract_dist_block[OF assms(3,4,5,6)] res by simp
  from prop_array_object[OF assms(3)] obtain kvs where v: "response r = JObj kvs" by auto
  have t1: "get_results_ts pk i reg = ResultsReply (rid r) (query r) (model r) rep cits (length anns)"
    using assms(1,2) ts by (simp add: get_results_ts_def)
  have t2: "get_results_dist env i reg =
           (ResultsReply (rid r) (query r) (model r) rep cits (length anns), reg, [])"
    using assms(1,2,3) v di by (simp add: get_results_dist_def caught_def)
  from t1 t2 show ?thesis by (rule conjI)
qed

theorem citations_follow_annotations_witness:
  "get_results_ts pred_key_sample ''req_3_c'' reg_c =
     ResultsReply ''req_3_c'' ''three'' O3_deep_research (JStr ''report'')
       [\<lparr>cid = 1, title = JStr ''A'', url = JStr ''http://a'', snippet = JUndefined\<rparr>,
        \<lparr>cid = 2, title = JStr ''B'', url = JStr ''http://b'', snippet = JUndefined\<rparr>,
        \<lparr>cid = 3, title = JStr ''Unknown'', url = JUndefined, snippet = JStr ''quoted''\<rparr>] 3 \<and>
   get_results_dist eenv_down ''req_3_c'' reg_c =
     (ResultsReply ''req_3_c'' ''three'' O3_deep_research (JStr ''report'')
       [\<lparr>cid = 1, title = JStr ''A'', url = JStr ''http://a'', snippet = JUndefined\<rparr>,
        \<lparr>cid = 2, title = JStr ''B'', url = JStr ''http://b'', snippet = JUndefined\<rparr>,
        \<lparr>cid = 3, title = JStr ''Unknown'', url = JUndefined, snippet = JStr ''quoted''\<rparr>] 3,
      reg_c, [])"
proof -
  let ?anns = "[JObj [(''title'', JStr ''A''), (''url'', JStr ''http://a'')],
                JObj [(''title'', JStr ''B''), (''url'', JStr ''http://b'')],
                JObj [(''snippet'', JStr ''quoted'')]]"
  let ?block = "JObj [(''type'', JStr ''output_text''), (''text'', JStr ''report''),
                      (''annotations'', JArr ?anns)]"
  let ?msgs = "[JObj [(''type'', JStr ''reasoning''), (''summary'', JArr [])],
                JObj [(''type'', JStr ''message''), (''content'', JArr [?block])]]"
  have 1: "reg_c ''req_3_c'' = Some job_c" by (simp add: reg_c_def)
  have 2: "status job_c = Completed" by (simp add: job_c_def)
  have 3: "js_prop (response job_c) ''output'' = JArr ?msgs" by (simp add: job_c_def doc_three_def)
  have 4: "?msgs \<noteq> []" by simp
  have 5: "js_prop (last ?msgs) ''content'' = JArr (?block # [])" by simp
  have 6: "truthy ?block" by simp
  have 7: "(js_prop ?block ''annotations'' = JArr ?anns \<and> (\<forall>a \<in> set ?anns. \<not> nullish a)) \<or>
         (\<not> truthy (js_prop ?block ''annotations'') \<and> ?anns = [])" by simp
  have 8: "report_text ?block = Inr (JStr ''report'')" by (simp add: report_text_def)
  have u: "[0 ..< length ?anns] = [0, 1, 2]" by (simp add: upt_rec)
  from citations_follow_annotations[of reg_c "''req_3_c''" job_c ?msgs ?block "[]" ?anns
      "JStr ''report''" _ pred_key_sample eenv_down, OF 1 2 3 4 5 6 7 8 refl]
  show ?thesis by (simp add: u job_c_def)
qed

subsection \<open>Status checks against the engine\<close>

lemma check_status_dist_pending:
  assumes "reg i = Some r" and "status r = Pending" and "truthy (openaiResponseId r)"
    and "getOpenAIClient (e_apiKey env) = Inr ()"
  shows "snd (snd (check_status_dist env i reg)) = [openaiResponseId r]"
    and "fst (snd (check_status_dist env i reg)) i =
           Some (case e_retrieve env (openaiResponseId r) of
                   Inl e \<Rightarrow> r
                 | Inr resp \<Rightarrow>
                     if js_prop (JObj resp) ''status'' = JStr ''completed''
                     then r\<lparr>status := Completed, response := JObj resp\<rparr>
                     else if js_prop (JObj resp) ''status'' = JStr ''failed''
                     then r\<lparr>status := Failed, error := Some ''Research request failed''\<rparr>
                     else r)"
  using assms
  by (auto simp: check_status_dist_def reconcile_def Let_def split: sum.splits)

lemma check_status_dist_clock:
  "fst (snd (check_status_dist (env\<lparr>e_now := t\<rparr>) i reg)) = fst (snd (check_status_dist env i reg))"
  by (auto simp: check_status_dist_def Let_def split: option.splits sum.splits)

text \<open>
  C1 on \<open>src/server.ts\<close>. The check-status handler of this file has no engine to ask: a
  pending request is declared completed because more than five minutes have passed since
  \<open>createdAt\<close>. (\<open>dist/server.js\<close> asks the engine, see \<open>check_status_dist_pending\<close>,
  and its registry does not depend on the clock, see \<open>check_status_dist_clock\<close>.)
\<close>

theorem ts_completes_by_the_clock:
  "reg_ts_a ''req_1_a'' = Some job_a \<and> status job_a = Pending \<and> createdAt job_a = 0 \<and>
   check_status_ts 300000 ''req_1_a'' reg_ts_a =
     (StatusReply ''req_1_a'' Pending ''ping'' O4_mini_deep_research 0 5, reg_ts_a) \<and>
   check_status_ts 300001 ''req_1_a'' reg_ts_a =
     (StatusReply ''req_1_a'' Completed ''ping'' O4_mini_deep_research 0 5,
      [''req_1_a'' \<mapsto> job_a\<lparr>status := Completed\<rparr>])"
  by (simp add: reg_ts_a_eq job_a_def check_status_ts_def status_reply_def elapsed_minutes_def Let_def)

subsection \<open>A completed request without a document\<close>

lemma get_results_dist_missing:
  assumes "reg i = Some r" and "status r = Completed" and "\<not> truthy (response r)"
    and "truthy (openaiResponseId r)" and "getOpenAIClient (e_apiKey env) = Inr ()"
  shows "snd (snd (get_results_dist env i reg)) = [openaiResponseId r]"
    and "\<exists>r'. fst (snd (get_results_dist env i reg)) i = Some r' \<and> status r' = Completed"
    and "e_retrieve env (openaiResponseId r) = Inl e \<Longrightarrow>
           get_results_dist env i reg =
             (ErrorReply (''Failed to retrieve results: '' @ e) ''error'' None, reg, [openaiResponseId r])"
  using assms
  by (auto simp: get_results_dist_def Let_def split: sum.splits)

text \<open>
  C3 on \<open>src/server.ts\<close>. The get-results handler of this file retrieves nothing: for a
  completed request whose \<open>response\<close> holds no output (the creation reply of the sample
  run, or no document at all) it answers \<open>No results available\<close>. (\<open>dist/server.js\<close>
  retrieves the document once, by \<open>openaiResponseId\<close>: \<open>get_results_dist_missing\<close>.)
\<close>

theorem ts_retrieves_nothing:
  "snd (check_status_ts 300001 ''req_1_a'' reg_ts_a) = [''req_1_a'' \<mapsto> job_a\<lparr>status := Completed\<rparr>] \<and>
   get_results_ts pred_key_sample ''req_1_a'' [''req_1_a'' \<mapsto> job_a\<lparr>status := Completed\<rparr>] =
     ErrorReply ''No results available'' ''error'' None \<and>
   get_results_ts pred_key_sample ''req_5_e'' reg_m = ErrorReply ''No results available'' ''error'' None"
  by (simp add: reg_ts_a_eq job_a_def check_status_ts_def Let_def get_results_ts_def extract_ts_def
      opt_prop_def reg_m_def job_m_def)

lemma get_results_dist_missing_sample:
  "get_results_dist eenv_pong ''req_5_e'' reg_m =
     (ResultsReply ''req_5_e'' ''ping'' O3_deep_research (JStr ''pong'')
        [\<lparr>cid = 1, title = JStr ''Src'', url = JStr ''http://x'', snippet = JUndefined\<rparr>] 1,
      [''req_5_e'' \<mapsto> job_m\<lparr>response := JObj doc_pong\<rparr>], [JStr ''resp_5''])"
  by (simp add: get_results_dist_def reg_m_def job_m_def eenv_pong_def retrieve_pong_def
      getOpenAIClient_def doc_pong_def extract_dist_def results_of_def extract_citations_def
      make_citation_def get_prop_def report_text_def caught_def Let_def)

subsection \<open>Documents that cannot be read\<close>

lemma extract_dist_malformed:
  assumes "\<not> well_shaped resp"
  shows "\<exists>e d. extract_dist r resp = Inr (ErrorReply e ''error'' d)"
proof (cases "truthy resp")
  case False
  then show ?thesis by (simp add: extract_dist_def)
next
  case t: True
  show ?thesis
  proof (cases "js_prop resp ''output''")
    case (JArr msgs)
    show ?thesis
    proof (cases "msgs = []")
      case True
      with t JArr show ?thesis by (simp add: extract_dist_def)
    next
      case ne: False
      show ?thesis
      proof (cases "js_prop (last msgs) ''content''")
        case c: (JArr items)
        with assms JArr ne have "items = []" by (simp add: well_shaped_def)
        with t JArr ne c show ?thesis by (simp add: extract_dist_def Let_def)
      qed (use t JArr ne in \<open>simp_all add: extract_dist_def Let_def\<close>)
    qed
  qed (use t in \<open>simp_all add: extract_dist_def Let_def\<close>)
qed

lemma get_results_dist_malformed:
  assumes "reg i = Some r" and "status r = Completed"
  shows "snd (snd (get_results_dist env i reg)) = [] \<Longrightarrow> \<not> well_shaped (response r) \<Longrightarrow>
           \<exists>e d. fst (get_results_dist env i reg) = ErrorReply e ''error'' d"
    and "snd (snd (get_results_dist env i reg)) \<noteq> [] \<Longrightarrow>
           e_retrieve env (openaiResponseId r) = Inr full \<Longrightarrow> \<not> well_shaped (JObj full) \<Longrightarrow>
           \<exists>e d. fst (get_results_dist env i reg) = ErrorReply e ''error'' d"
    and "snd (snd (get_results_dist env i reg)) \<noteq> [] \<Longrightarrow>
           e_retrieve env (openaiResponseId r) = Inl msg \<Longrightarrow>
           \<exists>e d. fst (get_results_dist env i reg) = ErrorReply e ''error'' d"
    and "\<exists>r'. fst (snd (get_results_dist env i reg)) i = Some r' \<and> status r' = Completed"
  using assms extract_dist_malformed[of "response r" r] extract_dist_malformed[of "JObj full" r]
  by (auto simp: get_results_dist_def caught_def Let_def split: sum.splits if_splits)

lemma get_results_dist_total:
  assumes "reg i = Some r" and "status r = Completed"
  shows "has_results (fst (get_results_dist env i reg)) \<or>
         (\<exists>e d. fst (get_results_dist env i reg) = ErrorReply e ''error'' d)"
proof -
  have x: "\<And>doc. has_results (caught (extract_dist r doc)) \<or>
                 (\<exists>e d. caught (extract_dist r doc) = ErrorReply e ''error'' d)"
    by (auto simp: caught_def get_results_failed_def extract_dist_def results_of_def Let_def
        split: sum.splits)
  from assms x show ?thesis
    by (auto simp: get_results_dist_def Let_def split: sum.splits)
qed

text \<open>
  C5 on \<open>src/server.ts\<close>. The optional chaining of this file does not ask whether
  \<open>content\<close> is a list: a last message whose content is the string \<open>hello\<close> is read at
  index 0, and the answer is a results payload with the report \<open>h\<close>. (\<open>dist/server.js\<close>
  tests \<open>Array.isArray\<close> and answers every document that is not \<open>well_shaped\<close> with an
  error of status \<open>error\<close>: \<open>get_results_dist_malformed\<close>.)
\<close>

theorem ts_reads_string_content:
  "reg_s ''req_4_d'' = Some job_s \<and> status job_s = Completed \<and>
   well_shaped (response job_s) = False \<and>
   get_results_ts pred_key_sample ''req_4_d'' reg_s =
     ResultsReply ''req_4_d'' ''ping'' O3_deep_research (JStr ''h'') [] 0"
  by (simp add: reg_s_def job_s_def well_shaped_def get_results_ts_def extract_ts_def opt_prop_def
      mainContent_ts_def results_of_def extract_citations_def report_text_def Let_def)

lemma dist_rejects_string_content:
  "\<exists>d. get_results_dist eenv_down ''req_4_d'' reg_s =
     (ErrorReply ''Unable to extract content from last message'' ''error'' d, reg_s, [])"
  by (simp add: reg_s_def job_s_def get_results_dist_def extract_dist_def caught_def Let_def)

subsection \<open>The cached document\<close>

lemma reg_dist_bare_eq:
  "reg_dist_bare = [''req_1_a'' \<mapsto> job_d\<lparr>status := Completed, response := JObj doc_bare\<rparr>]"
  by (simp add: reg_dist_bare_def reg_dist_a_eq check_status_dist_def eenv_bare_def
      getOpenAIClient_def retrieve_bare_def reconcile_def job_d_def doc_bare_def Let_def)

lemma reconcile_cases:
  "reconcile r resp = r \<or>
   reconcile r resp = r\<lparr>status := Completed, response := JObj resp\<rparr> \<or>
   reconcile r resp = r\<lparr>status := Failed, error := Some ''Research request failed''\<rparr>"
  by (simp add: reconcile_def)

lemma dist_invariant:
  "reachable_dist reg \<Longrightarrow> reg i = Some r \<Longrightarrow> (response r \<noteq> JUndefined \<longleftrightarrow> status r = Completed)"
proof (induction arbitrary: i r rule: reachable_dist.induct)
  case dist_init
  then show ?case by simp
next
  case (dist_create reg env inp)
  from create_dist_entry[OF dist_create.prems] dist_create.IH show ?case by auto
next
  case (dist_check reg eenv request_id)
  from check_status_dist_entry[OF dist_check.prems] obtain r0 where
    l: "reg i = Some r0" and
    c: "r = r0 \<or> (status r0 = Pending \<and> (\<exists>resp. r = reconcile r0 resp))"
    by blast
  from dist_check.IH[OF l] have i0: "response r0 \<noteq> JUndefined \<longleftrightarrow> status r0 = Completed" .
  from c show ?case
  proof
    assume "r = r0" with i0 show ?thesis by simp
  next
    assume "status r0 = Pending \<and> (\<exists>resp. r = reconcile r0 resp)"
    then obtain resp where p: "status r0 = Pending" and e: "r = reconcile r0 resp" by blast
    from p i0 have u: "response r0 = JUndefined" by simp
    from reconcile_cases[of r0 resp] e p u show ?thesis by auto
  qed
next
  case (dist_get reg eenv request_id)
  from get_results_dist_entry[OF dist_get.prems] obtain r0 where
    l: "reg i = Some r0" and
    c: "r = r0 \<or> (status r0 = Completed \<and> (\<exists>full. r = r0\<lparr>response := JObj full\<rparr>))"
    by blast
  from dist_get.IH[OF l] c show ?case by auto
qed

lemma check_status_dist_response:
  assumes "reg i = Some r" and "fst (snd (check_status_dist env j reg)) i = Some r'"
    and "response r' \<noteq> response r"
  shows "status r = Pending \<and> status r' = Completed \<and> j = i"
proof -
  from check_status_dist_entry[OF assms(2)] assms(1,3) obtain resp where
    "j = i" "status r = Pending" "r' = reconcile r resp" by auto
  with reconcile_cases[of r resp] assms(3) show ?thesis by auto
qed

lemma get_results_dist_response:
  assumes "reg i = Some r" and "fst (snd (get_results_dist env j reg)) i = Some r'"
    and "response r' \<noteq> response r"
  shows "status r = Completed \<and> \<not> truthy (js_prop (response r) ''output'') \<and>
         truthy (openaiResponseId r) \<and> j = i"
  using get_results_dist_entry[OF assms(2)] assms(1,3) by auto

text \<open>
  C2, as \<open>dist/server.js\<close> has it. A request of a reachable registry has a cached document
  exactly when it is completed. The check-status handler writes the document only together
  with the change from pending to completed, so once; the get-results handler replaces
  it only for a completed request whose cached document has no truthy output (it stores
  the document it retrieves by \<open>openaiResponseId\<close>); the create handler stores requests
  without a document.
\<close>

theorem dist_cached_iff_completed:
  assumes "reachable_dist reg" and "reg i = Some r"
  shows "(response r \<noteq> JUndefined \<longleftrightarrow> status r = Completed) \<and>
         (\<forall>env j r'. fst (snd (check_status_dist env j reg)) i = Some r' \<longrightarrow> response r' \<noteq> response r \<longrightarrow>
            status r = Pending \<and> status r' = Completed \<and> j = i) \<and>
         (\<forall>env j r'. fst (snd (get_results_dist env j reg)) i = Some r' \<longrightarrow> response r' \<noteq> response r \<longrightarrow>
            status r = Completed \<and> \<not> truthy (js_prop (response r) ''output'') \<and>
            truthy (openaiResponseId r) \<and> j = i) \<and>
         (\<forall>env inp r'. snd (create_dist env inp reg) i = Some r' \<longrightarrow> r' \<noteq> r \<longrightarrow>
            response r' = JUndefined \<and> status r' = Pending)"
proof (intro conjI allI impI)
  show "(response r \<noteq> JUndefined) = (status r = Completed)"
    using dist_invariant[OF assms] .
next
  fix env j r'
  assume a: "fst (snd (check_status_dist env j reg)) i = Some r'" and b: "response r' \<noteq> response r"
  from check_status_dist_response[OF assms(2) a b]
  show "status r = Pending" and "status r' = Completed" and "j = i" by simp_all
next
  fix env j r'
  assume a: "fst (snd (get_results_dist env j reg)) i = Some r'" and b: "response r' \<noteq> response r"
  from get_results_dist_response[OF assms(2) a b]
  show "status r = Completed" and "\<not> truthy (js_prop (response r) ''output'')"
    and "truthy (openaiResponseId r)" and "j = i" by simp_all
next
  fix env inp r'
  assume a: "snd (create_dist env inp reg) i = Some r'" and b: "r' \<noteq> r"
  from create_dist_entry[OF a] assms(2) b
  show "response r' = JUndefined" and "status r' = Pending" by auto
qed

theorem dist_cached_iff_completed_witness:
  "reachable_dist reg_dist_a \<and> reg_dist_a ''req_1_a'' = Some job_d \<and>
   status job_d = Pending \<and> response job_d = JUndefined \<and>
   fst (snd (check_status_dist eenv_pong ''req_1_a'' reg_dist_a)) ''req_1_a'' =
     Some (job_d\<lparr>status := Completed, response := JObj doc_pong\<rparr>)"
proof -
  have r: "reachable_dist reg_dist_a"
    unfolding reg_dist_a_def by (rule dist_create[OF dist_init])
  have l: "reg_dist_a ''req_1_a'' = Some job_d" by (simp add: reg_dist_a_eq)
  have c: "fst (snd (check_status_dist eenv_pong ''req_1_a'' reg_dist_a)) ''req_1_a'' =
     Some (job_d\<lparr>status := Completed, response := JObj doc_pong\<rparr>)"
    using reg_dist_done_eq by (simp add: reg_dist_done_def)
  from dist_cached_iff_completed[OF r l] have "(response job_d \<noteq> JUndefined) = (status job_d = Completed)"
    by (rule conjunct1)
  moreover have "status job_d = Pending" by (simp add: job_d_def)
  ultimately have "response job_d = JUndefined" by simp
  with r l c show ?thesis by (simp add: job_d_def)
qed

text \<open>
  The claim's "populated exactly once" fails on this handler: the sample request is
  completed with a document without output, and the next get-results call stores a
  second document in its place.
\<close>

theorem document_replaced_counterexample:
  "reachable_dist reg_dist_bare \<and>
   reg_dist_bare ''req_1_a'' = Some (job_d\<lparr>status := Completed, response := JObj doc_bare\<rparr>) \<and>
   get_results_dist eenv_pong ''req_1_a'' reg_dist_bare =
     (ResultsReply ''req_1_a'' ''ping'' O4_mini_deep_research (JStr ''pong'')
        [\<lparr>cid = 1, title = JStr ''Src'', url = JStr ''http://x'', snippet = JUndefined\<rparr>] 1,
      [''req_1_a'' \<mapsto> job_d\<lparr>status := Completed, response := JObj doc_pong\<rparr>],
      [JStr ''resp_1'']) \<and>
   JObj doc_bare \<noteq> JObj doc_pong"
proof -
  have r: "reachable_dist reg_dist_bare"
    unfolding reg_dist_bare_def reg_dist_a_def by (rule dist_check[OF dist_create[OF dist_init]])
  have g: "get_results_dist eenv_pong ''req_1_a'' reg_dist_bare =
     (ResultsReply ''req_1_a'' ''ping'' O4_mini_deep_research (JStr ''pong'')
        [\<lparr>cid = 1, title = JStr ''Src'', url = JStr ''http://x'', snippet = JUndefined\<rparr>] 1,
      [''req_1_a'' \<mapsto> job_d\<lparr>status := Completed, response := JObj doc_pong\<rparr>],
      [JStr ''resp_1''])"
    by (simp add: get_results_dist_def reg_dist_bare_eq job_d_def eenv_pong_def retrieve_pong_def
      getOpenAIClient_def doc_pong_def doc_bare_def extract_dist_def results_of_def extract_citations_def
      make_citation_def get_prop_def report_text_def caught_def Let_def)
  have d: "JObj doc_bare \<noteq> JObj doc_pong" by (simp add: doc_bare_def doc_pong_def)
  from r g d show ?thesis by (simp add: reg_dist_bare_eq)
qed

text \<open>
  In \<open>src/server.ts\<close> the field \<open>response\<close> holds the engine's creation reply from the
  moment the request is stored, whatever its status, and is never written again.
\<close>

lemma ts_response_set_at_creation:
  "reachable_ts reg \<Longrightarrow> reg i = Some r \<Longrightarrow> response r \<noteq> JUndefined"
proof (induction arbitrary: i r rule: reachable_ts.induct)
  case ts_init
  then show ?case by simp
next
  case (ts_create reg env inp)
  from ts_create.prems ts_create.IH show ?case
    by (auto simp: create_ts_def Let_def split: sum.splits if_splits)
next
  case (ts_check reg now request_id)
  from ts_check.prems ts_check.IH show ?case
    by (auto simp: check_status_ts_def Let_def split: option.splits if_splits)
qed

subsection \<open>Which documents get results\<close>

lemma forEach_citations_throws:
  assumes "\<not> (\<forall>a \<in> set anns. \<not> nullish a)"
  shows "\<exists>e. forEach_citations k anns = Inl e"
  using assms
proof (induction anns arbitrary: k)
  case Nil
  then show ?case by simp
next
  case (Cons a anns)
  show ?case
  proof (cases "nullish a")
    case True
    then show ?thesis by (simp add: make_citation_def get_prop_def)
  next
    case False
    with Cons.prems have "\<not> (\<forall>a \<in> set anns. \<not> nullish a)" by simp
    from Cons.IH[OF this, of "Suc k"] obtain e where "forEach_citations (Suc k) anns = Inl e" by blast
    with False show ?thesis by (simp add: make_citation_defined)
  qed
qed

lemma extract_citations_ok:
  "annotations_ok block \<Longrightarrow> \<exists>cs. extract_citations block = Inr cs"
  using forEach_citations_defined[of "elems (js_prop block ''annotations'')" 0]
  by (auto simp: annotations_ok_def extract_citations_def Let_def list_all_iff split: if_splits)

lemma extract_citations_not_ok:
  "\<not> annotations_ok block \<Longrightarrow> \<exists>e. extract_citations block = Inl e"
  using forEach_citations_throws[of "elems (js_prop block ''annotations'')" 0]
  by (auto simp: annotations_ok_def extract_citations_def Let_def list_all_iff split: if_splits)

lemma report_text_ok: "report_ok block \<Longrightarrow> \<exists>t. report_text block = Inr t"
  by (auto simp: report_ok_def report_text_def Let_def split: if_splits sum.splits)

lemma report_text_not_ok: "\<not> report_ok block \<Longrightarrow> \<exists>e. report_text block = Inl e"
  by (auto simp: report_ok_def report_text_def Let_def split: if_splits sum.splits)

lemma results_of_ok:
  assumes "annotations_ok block" and "report_ok block"
  shows "\<exists>x. results_of r block = Inr x \<and> has_results x"
proof -
  from extract_citations_ok[OF assms(1)] obtain cs where "extract_citations block = Inr cs" by blast
  moreover from report_text_ok[OF assms(2)] obtain t where "report_text block = Inr t" by blast
  ultimately show ?thesis by (simp add: results_of_def)
qed

lemma results_of_not_ok:
  assumes "\<not> (annotations_ok block \<and> report_ok block)"
  shows "\<exists>e. results_of r block = Inl e"
proof (cases "annotations_ok block")
  case False
  from extract_citations_not_ok[OF this] show ?thesis by (auto simp: results_of_def)
next
  case True
  with assms have "\<not> report_ok block" by simp
  from report_text_not_ok[OF this] extract_citations_ok[OF True] show ?thesis
    by (auto simp: results_of_def)
qed

lemma readable_shape:
  assumes "readable doc"
  obtains msgs block rest where "js_prop doc ''output'' = JArr msgs" and "msgs \<noteq> []"
    and "js_prop (last msgs) ''content'' = JArr (block # rest)" and "truthy block"
    and "annotations_ok block" and "report_ok block"
  using assms
  by (auto simp: readable_def split: json.splits list.splits)

lemma readable_well_shaped: "readable doc \<Longrightarrow> well_shaped doc"
  by (auto simp: readable_def well_shaped_def split: json.splits list.splits)

lemma extract_dist_readable:
  assumes "readable doc"
  shows "has_results (caught (extract_dist r doc))"
proof -
  from readable_shape[OF assms] obtain msgs block rest where
    s: "js_prop doc ''output'' = JArr msgs" "msgs \<noteq> []"
       "js_prop (last msgs) ''content'' = JArr (block # rest)" "truthy block"
    and ok: "annotations_ok block" "report_ok block" by blast
  from results_of_ok[OF ok, of r] obtain x where "results_of r block = Inr x" "has_results x" by blast
  with extract_dist_block[OF s, of r] show ?thesis by (simp add: caught_def)
qed

lemma extract_dist_unreadable:
  assumes "\<not> readable doc"
  shows "\<exists>e d. caught (extract_dist r doc) = ErrorReply e ''error'' d"
proof (cases "well_shaped doc")
  case False
  from extract_dist_malformed[OF this, of r] show ?thesis by (auto simp: caught_def)
next
  case True
  then obtain msgs block rest where
    s: "js_prop doc ''output'' = JArr msgs" "msgs \<noteq> []"
       "js_prop (last msgs) ''content'' = JArr (block # rest)"
    by (auto simp: well_shaped_def neq_Nil_conv split: json.splits)
  show ?thesis
  proof (cases "truthy block")
    case t: True
    with s assms have "\<not> (annotations_ok block \<and> report_ok block)" by (simp add: readable_def)
    from results_of_not_ok[OF this, of r] obtain e where "results_of r block = Inl e" by blast
    with extract_dist_block[OF s t, of r] show ?thesis
      by (simp add: caught_def get_results_failed_def)
  next
    case False
    from prop_array_object[OF s(1)] obtain kvs where v: "doc = JObj kvs" by auto
    from prop_array_object[OF s(3)] obtain kvs' where l: "last msgs = JObj kvs'" by auto
    from v l s False show ?thesis by (simp add: extract_dist_def caught_def Let_def)
  qed
qed

lemma get_results_dist_document:
  assumes "reg i = Some r" and "status r = Completed"
  shows "has_results (fst (get_results_dist env i reg)) \<longleftrightarrow> readable (document_read env r)"
    and "\<not> readable (document_read env r) \<Longrightarrow>
           \<exists>e d. fst (get_results_dist env i reg) = ErrorReply e ''error'' d"
proof -
  have u: "\<not> readable JUndefined" by (simp add: readable_def)
  have x: "\<And>doc. has_results (caught (extract_dist r doc)) \<longleftrightarrow> readable doc"
    using extract_dist_readable[of _ r] extract_dist_unreadable[of _ r] by force
  show "has_results (fst (get_results_dist env i reg)) \<longleftrightarrow> readable (document_read env r)"
    using assms u x
    by (auto simp: get_results_dist_def document_read_def Let_def split: sum.splits)
  show "\<not> readable (document_read env r) \<Longrightarrow>
           \<exists>e d. fst (get_results_dist env i reg) = ErrorReply e ''error'' d"
    using assms extract_dist_unreadable[of _ r]
    by (auto simp: get_results_dist_def document_read_def Let_def split: sum.splits if_splits)
qed

lemma get_results_ts_readable:
  assumes "reg i = Some r" and "status r = Completed" and "readable (response r)"
  shows "has_results (get_results_ts pk i reg)"
proof -
  from readable_shape[OF assms(3)] obtain msgs block rest where
    s: "js_prop (response r) ''output'' = JArr msgs" "msgs \<noteq> []"
       "js_prop (last msgs) ''content'' = JArr (block # rest)" "truthy block"
    and ok: "annotations_ok block" "report_ok block" by blast
  from results_of_ok[OF ok, of r] obtain x where "results_of r block = Inr x" "has_results x" by blast
  with extract_ts_block[OF s, of pk] assms(1,2) show ?thesis by (simp add: get_results_ts_def)
qed

lemma get_results_ts_total:
  assumes "reg i = Some r" and "status r = Completed"
  shows "has_results (get_results_ts pk i reg) \<or>
         (\<exists>e d. get_results_ts pk i reg = ErrorReply e ''error'' d)"
  using assms
  by (auto simp: get_results_ts_def get_results_failed_def extract_ts_def results_of_def Let_def
      split: sum.splits)

text \<open>
  C7, as the code has it. In both files get-results answers with a results payload only
  for a stored request whose status is completed. For a completed request the answer is
  either the results payload or an error text with status \<open>error\<close>; it is the payload
  whenever the request's document is \<open>readable\<close>, and in \<open>dist/server.js\<close> exactly when
  the document the handler reads (\<open>document_read\<close>) is. An unknown id gets
  \<open>{error: "Request ID <id> not found", status: "not_found"}\<close>; a stored request that is
  not completed gets an error text with its current status and no results, and in
  \<open>dist/server.js\<close> neither the registry is written nor the engine called.
\<close>

theorem results_iff_readable:
  "(has_results (get_results_ts pk i reg) \<or> has_results (fst (get_results_dist env i reg)) \<longrightarrow>
      (\<exists>r. reg i = Some r \<and> status r = Completed)) \<and>
   (reg i = None \<longrightarrow>
      get_results_ts pk i reg = ErrorReply (''Request ID '' @ i @ '' not found'') ''not_found'' None \<and>
      get_results_dist env i reg =
        (ErrorReply (''Request ID '' @ i @ '' not found'') ''not_found'' None, reg, [])) \<and>
   (reg i = Some r \<and> status r \<noteq> Completed \<longrightarrow>
      get_results_ts pk i reg =
        ErrorReply (''Request '' @ i @ '' is not completed. Status: '' @ status_str (status r))
          (status_str (status r)) None \<and>
      get_results_dist env i reg =
        (ErrorReply (''Request '' @ i @ '' is not completed. Status: '' @ status_str (status r))
          (status_str (status r)) None, reg, [])) \<and>
   (reg i = Some r \<and> status r = Completed \<longrightarrow>
      (readable (response r) \<longrightarrow> has_results (get_results_ts pk i reg)) \<and>
      (has_results (get_results_ts pk i reg) \<or>
         (\<exists>e d. get_results_ts pk i reg = ErrorReply e ''error'' d)) \<and>
      (has_results (fst (get_results_dist env i reg)) \<longleftrightarrow> readable (document_read env r)) \<and>
      (\<not> readable (document_read env r) \<longrightarrow>
         (\<exists>e d. fst (get_results_dist env i reg) = ErrorReply e ''error'' d)))"
proof (intro conjI impI)
  assume "has_results (get_results_ts pk i reg) \<or> has_results (fst (get_results_dist env i reg))"
  then show "\<exists>r. reg i = Some r \<and> status r = Completed"
    using get_results_ts_results get_results_dist_results by (elim disjE)
next
  assume "reg i = None"
  then show "get_results_ts pk i reg = ErrorReply (''Request ID '' @ i @ '' not found'') ''not_found'' None"
    by (rule get_results_unknown(1))
next
  assume "reg i = None"
  then show "get_results_dist env i reg =
        (ErrorReply (''Request ID '' @ i @ '' not found'') ''not_found'' None, reg, [])"
    by (rule get_results_unknown(2))
next
  assume a: "reg i = Some r \<and> status r \<noteq> Completed"
  then show "get_results_ts pk i reg =
        ErrorReply (''Request '' @ i @ '' is not completed. Status: '' @ status_str (status r))
          (status_str (status r)) None"
    using get_results_not_completed(1)[of reg i r] by (elim conjE)
next
  assume a: "reg i = Some r \<and> status r \<noteq> Completed"
  then show "get_results_dist env i reg =
        (ErrorReply (''Request '' @ i @ '' is not completed. Status: '' @ status_str (status r))
          (status_str (status r)) None, reg, [])"
    using get_results_not_completed(2)[of reg i r] by (elim conjE)
next
  assume a: "reg i = Some r \<and> status r = Completed" and b: "readable (response r)"
  from a b show "has_results (get_results_ts pk i reg)"
    using get_results_ts_readable[of reg i r pk] by (elim conjE)
next
  assume a: "reg i = Some r \<and> status r = Completed"
  then show "has_results (get_results_ts pk i reg) \<or>
         (\<exists>e d. get_results_ts pk i reg = ErrorReply e ''error'' d)"
    using get_results_ts_total[of reg i r pk] by (elim conjE)
next
  assume a: "reg i = Some r \<and> status r = Completed"
  then show "has_results (fst (get_results_dist env i reg)) \<longleftrightarrow> readable (document_read env r)"
    using get_results_dist_document(1)[of reg i r env] by (elim conjE)
next
  assume a: "reg i = Some r \<and> status r = Completed" and b: "\<not> readable (document_read env r)"
  from a b show "\<exists>e d. fst (get_results_dist env i reg) = ErrorReply e ''error'' d"
    using get_results_dist_document(2)[of reg i r env] by (elim conjE)
qed

theorem results_iff_readable_witness:
  "reg_c ''req_3_c'' = Some job_c \<and> status job_c = Completed \<and>
   readable (response job_c) \<and> readable (document_read eenv_down job_c) \<and>
   has_results (get_results_ts pred_key_sample ''req_3_c'' reg_c) \<and>
   has_results (fst (get_results_dist eenv_down ''req_3_c'' reg_c)) \<and>
   reg_ts_a ''req_1_a'' = Some job_a \<and> status job_a = Pending \<and>
   get_results_ts pred_key_sample ''req_1_a'' reg_ts_a =
     ErrorReply ''Request req_1_a is not completed. Status: pending'' ''pending'' None \<and>
   reg_ts_a ''req_9_z'' = None \<and>
   get_results_ts pred_key_sample ''req_9_z'' reg_ts_a =
     ErrorReply ''Request ID req_9_z not found'' ''not_found'' None"
proof -
  have c: "reg_c ''req_3_c'' = Some job_c" and cs: "status job_c = Completed"
    by (simp_all add: reg_c_def job_c_def)
  have rd: "readable (response job_c)"
    by (simp add: readable_def job_c_def doc_three_def annotations_ok_def report_ok_def)
  have dr: "document_read eenv_down job_c = response job_c"
    by (simp add: document_read_def job_c_def doc_three_def)
  note t3 = results_iff_readable[of pred_key_sample "''req_3_c''" reg_c eenv_down job_c]
  from t3 c cs rd dr have h1: "has_results (get_results_ts pred_key_sample ''req_3_c'' reg_c)"
    and h2: "has_results (fst (get_results_dist eenv_down ''req_3_c'' reg_c))"
    by simp_all
  have l: "reg_ts_a ''req_1_a'' = Some job_a" and n: "reg_ts_a ''req_9_z'' = None"
    by (simp_all add: reg_ts_a_eq)
  have p: "status job_a = Pending" by (simp add: job_a_def)
  note t1 = results_iff_readable[of pred_key_sample "''req_1_a''" reg_ts_a eenv_down job_a]
  note t2 = results_iff_readable[of pred_key_sample "''req_9_z''" reg_ts_a eenv_down job_a]
  from t1 l p have a: "get_results_ts pred_key_sample ''req_1_a'' reg_ts_a =
     ErrorReply ''Request req_1_a is not completed. Status: pending'' ''pending'' None"
    by simp
  from t2 n have b: "get_results_ts pred_key_sample ''req_9_z'' reg_ts_a =
     ErrorReply ''Request ID req_9_z not found'' ''not_found'' None"
    by simp
  from dr rd have rd2: "readable (document_read eenv_down job_c)" by simp
  from c cs rd rd2 h1 h2 l p a n b show ?thesis by (intro conjI)
qed

text \<open>
  The claim's "if and only if" fails for a completed request whose document cannot be
  read: the sample request of \<open>src/server.ts\<close>, completed with the empty output list of
  its creation reply, gets an error.
\<close>

theorem completed_unreadable_counterexample:
  "reg_ts_b ''req_2_b'' = Some job_b \<and> status job_b = Completed \<and>
   readable (response job_b) = False \<and>
   get_results_ts pred_key_sample ''req_2_b'' reg_ts_b =
     ErrorReply ''Unable to extract results from response'' ''error'' None \<and>
   has_results (get_results_ts pred_key_sample ''req_2_b'' reg_ts_b) = False"
  by (simp add: reg_ts_b_eq job_b_def get_results_ts_def extract_ts_def opt_prop_def
      mainContent_ts_def readable_def Let_def)

subsection \<open>Terminal states along a run\<close>

lemma create_not_returning:
  shows "fst (create_ts env inp reg) \<noteq> Created i \<Longrightarrow> snd (create_ts env inp reg) i = reg i"
    and "fst (create_dist env inp reg) \<noteq> Created i \<Longrightarrow> snd (create_dist env inp reg) i = reg i"
  by (auto simp: create_ts_def create_dist_def create_failed_def Let_def split: sum.splits)

lemma create_returning:
  shows "fst (create_ts env inp reg) = Created i \<Longrightarrow>
           \<exists>r'. snd (create_ts env inp reg) i = Some r' \<and> status r' = Pending"
    and "fst (create_dist env inp reg) = Created i \<Longrightarrow>
           \<exists>r'. snd (create_dist env inp reg) i = Some r' \<and> status r' = Pending"
  by (auto simp: create_ts_def create_dist_def create_failed_def Let_def split: sum.splits)

lemma later_ts_terminal:
  assumes "later_ts i reg reg'" and "reg i = Some r" and "status r \<noteq> Pending"
  shows "reg' i = Some r"
  using assms
proof (induction rule: later_ts.induct)
  case (later_ts_refl i reg)
  then show ?case by simp
next
  case (later_ts_create i reg reg' env inp)
  then show ?case using create_not_returning(1)[of env inp reg' i] by simp
next
  case (later_ts_check i reg reg' now request_id)
  then have "reg' i = Some r" by simp
  from check_status_ts_terminal(1)[of reg' i r, OF this later_ts_check.prems(2)] show ?case .
qed

lemma later_dist_terminal:
  assumes "later_dist i reg reg'" and "reg i = Some r" and "status r \<noteq> Pending"
  shows "\<exists>r'. reg' i = Some r' \<and> status r' = status r"
  using assms
proof (induction rule: later_dist.induct)
  case (later_dist_refl i reg)
  then show ?case by simp
next
  case (later_dist_create i reg reg' env inp)
  then show ?case using create_not_returning(2)[of env inp reg' i] by simp
next
  case (later_dist_check i reg reg' eenv request_id)
  then obtain r' where l: "reg' i = Some r'" and s: "status r' = status r" by auto
  from s later_dist_check.prems(2) have "status r' \<noteq> Pending" by simp
  from check_status_dist_terminal(1)[of reg' i r', OF l this] s show ?case by simp
next
  case (later_dist_get i reg reg' eenv request_id)
  then obtain r' where l: "reg' i = Some r'" and s: "status r' = status r" by auto
  from get_results_dist_status[of reg' i r', OF l] s show ?case by auto
qed

text \<open>
  C6, as the code has it. A request that is completed or failed is not changed by a
  check-status call of either file, keeps its status under a get-results call, and is left
  alone by every create call that does not return its identifier. Along any run of
  handler calls in which no create returns that identifier again, the identifier stays
  bound to a request of the same status, and a check-status call on it answers with that
  status and, in \<open>dist/server.js\<close>, calls the engine not at all (\<open>src/server.ts\<close> has no
  engine call in this handler). A create call that does return the identifier binds it to
  a new pending request.
\<close>

theorem terminal_status_kept_until_rebound:
  assumes "reg i = Some r" and "status r = Completed \<or> status r = Failed"
  shows "snd (check_status_ts now j reg) i = Some r \<and>
         fst (snd (check_status_dist eenv j reg)) i = Some r \<and>
         (\<exists>r'. fst (snd (get_results_dist eenv j reg)) i = Some r' \<and> status r' = status r) \<and>
         (fst (create_ts env inp reg) \<noteq> Created i \<longrightarrow> snd (create_ts env inp reg) i = Some r) \<and>
         (fst (create_dist env inp reg) \<noteq> Created i \<longrightarrow> snd (create_dist env inp reg) i = Some r) \<and>
         (fst (create_ts env inp reg) = Created i \<longrightarrow>
            (\<exists>r'. snd (create_ts env inp reg) i = Some r' \<and> status r' = Pending)) \<and>
         (fst (create_dist env inp reg) = Created i \<longrightarrow>
            (\<exists>r'. snd (create_dist env inp reg) i = Some r' \<and> status r' = Pending)) \<and>
         (later_ts i reg reg1 \<longrightarrow>
            reg1 i = Some r \<and> check_status_ts now i reg1 = (status_reply r now, reg1)) \<and>
         (later_dist i reg reg2 \<longrightarrow>
            (\<exists>r'. reg2 i = Some r' \<and> status r' = status r \<and>
                  check_status_dist eenv i reg2 = (status_reply r' (e_now eenv), reg2, [])))"
proof -
  from assms(2) have np: "status r \<noteq> Pending" by auto
  have 1: "snd (check_status_ts now j reg) i = Some r"
    by (rule check_status_ts_terminal(1)[of reg i r, OF assms(1) np])
  have 2: "fst (snd (check_status_dist eenv j reg)) i = Some r"
    by (rule check_status_dist_terminal(1)[of reg i r, OF assms(1) np])
  have 3: "\<exists>r'. fst (snd (get_results_dist eenv j reg)) i = Some r' \<and> status r' = status r"
    by (rule get_results_dist_status[of reg i r, OF assms(1)])
  have 4: "fst (create_ts env inp reg) \<noteq> Created i \<longrightarrow> snd (create_ts env inp reg) i = Some r"
    using create_not_returning(1)[of env inp reg i] assms(1) by simp
  have 5: "fst (create_dist env inp reg) \<noteq> Created i \<longrightarrow> snd (create_dist env inp reg) i = Some r"
    using create_not_returning(2)[of env inp reg i] assms(1) by simp
  have 6: "fst (create_ts env inp reg) = Created i \<longrightarrow>
            (\<exists>r'. snd (create_ts env inp reg) i = Some r' \<and> status r' = Pending)"
    using create_returning(1)[of env inp reg i] by (rule impI)
  have 7: "fst (create_dist env inp reg) = Created i \<longrightarrow>
            (\<exists>r'. snd (create_dist env inp reg) i = Some r' \<and> status r' = Pending)"
    using create_returning(2)[of env inp reg i] by (rule impI)
  have 8: "later_ts i reg reg1 \<longrightarrow>
            reg1 i = Some r \<and> check_status_ts now i reg1 = (status_reply r now, reg1)"
  proof
    assume "later_ts i reg reg1"
    from later_ts_terminal[OF this assms(1) np] have l: "reg1 i = Some r" .
    from l check_status_ts_terminal(2)[of reg1 i r, OF l np]
    show "reg1 i = Some r \<and> check_status_ts now i reg1 = (status_reply r now, reg1)" by (rule conjI)
  qed
  have 9: "later_dist i reg reg2 \<longrightarrow>
            (\<exists>r'. reg2 i = Some r' \<and> status r' = status r \<and>
                  check_status_dist eenv i reg2 = (status_reply r' (e_now eenv), reg2, []))"
  proof
    assume "later_dist i reg reg2"
    from later_dist_terminal[OF this assms(1) np] obtain r' where
      l: "reg2 i = Some r'" and s: "status r' = status r" by blast
    from s np have "status r' \<noteq> Pending" by simp
    from check_status_dist_terminal(2)[of reg2 i r', OF l this] l s
    show "\<exists>r'. reg2 i = Some r' \<and> status r' = status r \<and>
                  check_status_dist eenv i reg2 = (status_reply r' (e_now eenv), reg2, [])"
      by (intro exI[of _ r'] conjI)
  qed
  from 1 2 3 4 5 6 7 8 9 show ?thesis by (intro conjI)
qed

theorem terminal_status_kept_until_rebound_witness:
  "reg_dist_done ''req_1_a'' = Some (job_d\<lparr>status := Completed, response := JObj doc_pong\<rparr>) \<and>
   later_dist ''req_1_a'' reg_dist_done
     (fst (snd (get_results_dist eenv_down ''req_1_a'' (snd (create_dist env_b inp_other reg_dist_done))))) \<and>
   fst (create_dist env_b inp_other reg_dist_done) = Created ''req_2_b'' \<and>
   (\<exists>r'. fst (snd (get_results_dist eenv_down ''req_1_a'' (snd (create_dist env_b inp_other reg_dist_done))))
           ''req_1_a'' = Some r' \<and>
         status r' = Completed \<and>
         check_status_dist eenv_down ''req_1_a''
           (fst (snd (get_results_dist eenv_down ''req_1_a'' (snd (create_dist env_b inp_other reg_dist_done))))) =
         (status_reply r' 120000,
          fst (snd (get_results_dist eenv_down ''req_1_a'' (snd (create_dist env_b inp_other reg_dist_done)))),
          []))"
proof -
  let ?reg2 = "fst (snd (get_results_dist eenv_down ''req_1_a'' (snd (create_dist env_b inp_other reg_dist_done))))"
  have l: "reg_dist_done ''req_1_a'' = Some (job_d\<lparr>status := Completed, response := JObj doc_pong\<rparr>)"
    by (simp add: reg_dist_done_eq)
  have s: "status (job_d\<lparr>status := Completed, response := JObj doc_pong\<rparr>) = Completed \<or>
           status (job_d\<lparr>status := Completed, response := JObj doc_pong\<rparr>) = Failed"
    by simp
  have c: "fst (create_dist env_b inp_other reg_dist_done) = Created ''req_2_b''"
    by (simp add: create_dist_def env_b_def getOpenAIClient_def start_background_def requestId_b Let_def)
  then have n: "fst (create_dist env_b inp_other reg_dist_done) \<noteq> Created ''req_1_a''" by simp
  have lt: "later_dist ''req_1_a'' reg_dist_done ?reg2"
    by (rule later_dist_get[OF later_dist_create[OF later_dist_refl n]])
  note t = terminal_status_kept_until_rebound[of reg_dist_done "''req_1_a''" _ 0 "''req_1_a''"
      eenv_down env_b inp_other reg_dist_done ?reg2, OF l s]
  from t have "later_dist ''req_1_a'' reg_dist_done ?reg2 \<longrightarrow>
            (\<exists>r'. ?reg2 ''req_1_a'' = Some r' \<and>
                  status r' = status (job_d\<lparr>status := Completed, response := JObj doc_pong\<rparr>) \<and>
                  check_status_dist eenv_down ''req_1_a'' ?reg2 = (status_reply r' (e_now eenv_down), ?reg2, []))"
    by (elim conjE)
  from mp[OF this lt] have "\<exists>r'. ?reg2 ''req_1_a'' = Some r' \<and> status r' = Completed \<and>
         check_status_dist eenv_down ''req_1_a'' ?reg2 = (status_reply r' 120000, ?reg2, [])"
    by (simp add: eenv_down_def)
  with l lt c show ?thesis by (intro conjI)
qed

text \<open>
  The claim's "no operation ever" fails on a create call that returns an identifier again:
  the completed sample request of \<open>dist/server.js\<close> is replaced by a pending one, and the
  next check-status call answers \<open>pending\<close> and calls the engine.
\<close>

theorem terminal_id_rebound_counterexample:
  "reg_dist_done ''req_1_a'' = Some (job_d\<lparr>status := Completed, response := JObj doc_pong\<rparr>) \<and>
   create_dist env_a inp_other reg_dist_done =
     (Created ''req_1_a'',
      [''req_1_a'' \<mapsto> job_d\<lparr>query := ''another question'', systemMessage := Some ''be brief'',
                                 model := O3_deep_research\<rparr>]) \<and>
   status job_d = Pending \<and>
   check_status_dist eenv_down ''req_1_a''
     [''req_1_a'' \<mapsto> job_d\<lparr>query := ''another question'', systemMessage := Some ''be brief'',
                                model := O3_deep_research\<rparr>] =
     (StatusReply ''req_1_a'' Pending ''another question'' O3_deep_research 0 2,
      [''req_1_a'' \<mapsto> job_d\<lparr>query := ''another question'', systemMessage := Some ''be brief'',
                                 model := O3_deep_research\<rparr>],
      [JStr ''resp_1''])"
  by (simp add: reg_dist_done_eq create_dist_def env_a_def inp_other_def getOpenAIClient_def
      start_queued_def requestId_a job_d_def check_status_dist_def eenv_down_def retrieve_down_def
      status_reply_def elapsed_minutes_def Let_def)

end
